theory Spec2Isabelle
  imports Main
begin

section \<open>The orchestration bridge of pyblish-qml (host.py)\<close>

text \<open>
  A shallow embedding of \<^verbatim>\<open>pyblish_qml/host.py\<close>. Every function of the module becomes
  an action on an explicit process state; a Python exception becomes the \<open>Inl\<close> branch of
  the action's result, together with the state at the moment of the raise.
\<close>

subsection \<open>Exceptions\<close>

text \<open>
  The exception classes the module raises, catches or can meet. The type stands for the
  class \<^verbatim>\<open>Exception\<close> and its subclasses, which is what \<^verbatim>\<open>except Exception\<close> catches.
  \<open>IOError\<close> and \<open>OSError\<close> are kept apart, as they are in Python 2, the language of
  \<^verbatim>\<open>inspect.getargspec\<close>.
\<close>

datatype exn =
    ImportError | TypeError | KeyError | IOError | OSError
  | RuntimeError | AttributeError | ValueError | AssertionError | OtherError string

subsection \<open>Data\<close>

text \<open>A Qt widget with its \<^verbatim>\<open>objectName()\<close> and its \<^verbatim>\<open>parent()\<close>.\<close>

datatype window = Window (objectName: string) (wparent: "window option")

text \<open>
  What \<^verbatim>\<open>QtWidgets.QApplication.instance()\<close> returns: \<^verbatim>\<open>None\<close>, an application
  object without the attribute \<^verbatim>\<open>activeWindow\<close>, or one whose \<^verbatim>\<open>activeWindow()\<close>
  returns a window or \<^verbatim>\<open>None\<close>.
\<close>

datatype qapp = NoApp | CoreApp | GuiApp (activeWindow: "window option")

text \<open>The fixed set of hosts, one per \<^verbatim>\<open>_install_*\<close> function.\<close>

datatype host = Maya | Houdini | Nuke | NukeAssist | Hiero | NukeStudio

text \<open>What \<^verbatim>\<open>inspect.getargspec\<close> reads off a Python function.\<close>

record argspec =
  spec_args :: "string list"
  spec_varargs :: "string option"
  spec_keywords :: "string option"

text \<open>
  A callable handed to \<^verbatim>\<open>register_dispatch_wrapper\<close>: a caller's function with its
  name and signature, or the \<^verbatim>\<open>threaded_wrapper\<close> closure of a host installer.
\<close>

datatype wrapper = UserWrapper string argspec | ThreadedWrapper host

text \<open>The handlers registered with the pipeline callback registry. Each call of
  \<^verbatim>\<open>show\<close> makes a new \<^verbatim>\<open>on_shown\<close> closure; the number is its identity.\<close>

datatype handler = ToggleInstance | TogglePlugin | OnShown nat

text \<open>A \<^verbatim>\<open>Server\<close> object (the attributes host.py sets) and a \<^verbatim>\<open>Proxy\<close>, which is
  bound to the reference of its server.\<close>

record server =
  modal :: bool
  targets :: "string list"

datatype proxy = Proxy (pserver: nat) (pheadless: bool)

text \<open>The fields of the \<^verbatim>\<open>settings\<close> module that host.py reads and writes.\<close>

record settings =
  ContextLabel :: string
  WindowTitle :: string
  ContextLabelDefault :: string
  WindowTitleDefault :: string

text \<open>
  The observable effects on the collaborators, in the order they happen: writes to
  standard output, \<^verbatim>\<open>traceback.print_exc()\<close>, the splash screen, the construction of
  the service, server and proxy, the commands sent through a proxy, \<^verbatim>\<open>server.listen()\<close>,
  the connection of the quit hook and the kill of the subprocess by that hook.
\<close>

datatype event =
    Stdout string
  | PrintExc exn
  | SplashShow nat
  | SplashClose nat
  | ServiceInit
  | ServerInit nat
  | ProxyInit proxy
  | ProxyUpdate proxy nat
  | ProxyShow proxy settings
  | ProxyPublish proxy
  | ProxyValidate proxy
  | ProxyKill proxy
  | Listen nat
  | QuitHookConnected
  | PopenKill nat

subsection \<open>The process state\<close>

text \<open>
  The dictionary \<^verbatim>\<open>_state\<close> with the keys host.py uses, one optional field per key
  (\<open>None\<close>: the key is absent), and the other process-wide data the module works on:
  \<^verbatim>\<open>os.environ\<close>, the \<^verbatim>\<open>settings\<close> module, the callback registry of
  \<^verbatim>\<open>pyblish.api\<close>, the heap of server objects (by reference), a counter for new object
  identities, and the trace of effects. The key \<^verbatim>\<open>"installed"\<close> is only ever set to
  \<^verbatim>\<open>True\<close> and read through \<^verbatim>\<open>_state.get\<close>, so it is a boolean.
\<close>

record state =
  installed :: bool
  currentServer :: "nat option"
  currentProxy :: "proxy option"
  dispatchWrapper :: "wrapper option"
  vesselParent :: "window option"
  pythonExecutable :: "string option"
  pyqt5 :: "string option"
  environ :: "string \<rightharpoonup> string"
  settings :: settings
  callbacks :: "string \<rightharpoonup> handler list"
  servers :: "nat \<rightharpoonup> server"
  fresh :: nat
  trace :: "event list"

text \<open>
  The host and the collaborators as one call of the module meets them: which modules
  can be imported, what the host reports, the Qt application, and for each call into
  \<^verbatim>\<open>ipc\<close> or Qt whether it returns (\<open>None\<close>) or raises.
\<close>

record env =
  can_import_maya :: bool
  maya_version :: string
  can_import_hdefereval :: bool
  can_import_nuke :: bool
  can_import_hiero :: bool
  rawArgs :: "string list"
  pathsep :: char
  is_file :: "string \<Rightarrow> bool"
  app :: qapp
  topLevelWidgets :: "window list"
  splash_deleted :: bool
  service_init :: "exn option"
  server_init :: "exn option"
  proxy_init :: "exn option"
  proxy_update :: "proxy \<Rightarrow> exn option"
  proxy_show :: "proxy \<Rightarrow> exn option"
  proxy_publish :: "proxy \<Rightarrow> exn option"
  proxy_validate :: "proxy \<Rightarrow> exn option"
  proxy_kill :: "proxy \<Rightarrow> exn option"
  popen_kill :: "nat \<Rightarrow> exn option"
  listen :: "exn option"

subsection \<open>Actions: state passing with exceptions\<close>

type_synonym 'a action = "state \<Rightarrow> state \<times> (exn + 'a)"

definition ret :: "'a \<Rightarrow> 'a action" where
  "ret v st = (st, Inr v)"

definition raise :: "exn \<Rightarrow> 'a action" where
  "raise e st = (st, Inl e)"

definition bind :: "'a action \<Rightarrow> ('a \<Rightarrow> 'b action) \<Rightarrow> 'b action" where
  "bind m f st = (case m st of (st', Inl e) \<Rightarrow> (st', Inl e) | (st', Inr v) \<Rightarrow> f v st')"

definition seq :: "unit action \<Rightarrow> 'a action \<Rightarrow> 'a action" where
  "seq m n = bind m (\<lambda>_. n)"

text \<open>A block of statements, run in order until one raises.\<close>

fun do_all :: "unit action list \<Rightarrow> unit action" where
  "do_all [] = ret ()"
| "do_all (m # ms) = seq m (do_all ms)"

text \<open>\<^verbatim>\<open>try: m  except <classes c>: h\<close>. The handler runs on the state left by the raise.\<close>

definition try_except :: "'a action \<Rightarrow> (exn \<Rightarrow> bool) \<Rightarrow> (exn \<Rightarrow> 'a action) \<Rightarrow> 'a action" where
  "try_except m c h st =
     (case m st of
        (st', Inl e) \<Rightarrow> if c e then h e st' else (st', Inl e)
      | (st', Inr v) \<Rightarrow> (st', Inr v))"

definition gets :: "(state \<Rightarrow> 'a) \<Rightarrow> 'a action" where
  "gets f st = (st, Inr (f st))"

definition modify :: "(state \<Rightarrow> state) \<Rightarrow> unit action" where
  "modify f st = (f st, Inr ())"

definition emit :: "event \<Rightarrow> unit action" where
  "emit ev = modify (\<lambda>st. st\<lparr>trace := trace st @ [ev]\<rparr>)"

text \<open>A call into a collaborator: the call is made (and traced), then it returns or
  raises as the environment says.\<close>

definition external :: "event \<Rightarrow> exn option \<Rightarrow> unit action" where
  "external ev outcome =
     seq (emit ev) (case outcome of None \<Rightarrow> ret () | Some e \<Rightarrow> raise e)"

text \<open>\<^verbatim>\<open>d[key]\<close> on a dictionary entry: \<^verbatim>\<open>KeyError\<close> when the key is absent.\<close>

definition lookup :: "(state \<Rightarrow> 'a option) \<Rightarrow> 'a action" where
  "lookup f = bind (gets f) (\<lambda>v. case v of None \<Rightarrow> raise KeyError | Some x \<Rightarrow> ret x)"

definition stdout_write :: "string \<Rightarrow> unit action" where
  "stdout_write s = emit (Stdout s)"

subsection \<open>The pipeline callback registry (pyblish.api)\<close>

text \<open>
  The registry is the external collaborator of the spec's section 6, a dictionary from
  callback name to the list of its handlers. \<^verbatim>\<open>register_callback(name, handler)\<close>
  appends the handler to the list of the name, or starts the list.
  \<^verbatim>\<open>deregister_callback(name, handler)\<close> looks the name up, which raises
  \<^verbatim>\<open>KeyError\<close> for a name that was never registered, and removes one occurrence of the
  handler from the list, which raises \<^verbatim>\<open>ValueError\<close> when there is none
  (\<^verbatim>\<open>list.remove\<close>); an emptied list stays under its name.
\<close>

definition register_callback :: "string \<Rightarrow> handler \<Rightarrow> unit action" where
  "register_callback name h =
     modify (\<lambda>st. st\<lparr>callbacks := (callbacks st)(name \<mapsto>
                        (case callbacks st name of None \<Rightarrow> [h] | Some hs \<Rightarrow> hs @ [h]))\<rparr>)"

definition deregister_callback :: "string \<Rightarrow> handler \<Rightarrow> unit action" where
  "deregister_callback name h =
     bind (lookup (\<lambda>st. callbacks st name)) (\<lambda>hs.
       if h \<in> set hs
       then modify (\<lambda>st. st\<lparr>callbacks := (callbacks st)(name \<mapsto> remove1 h hs)\<rparr>)
       else raise ValueError)"

text \<open>How many handlers are registered under a name.\<close>

definition registrations :: "string \<Rightarrow> state \<Rightarrow> nat" where
  "registrations name st = (case callbacks st name of None \<Rightarrow> 0 | Some hs \<Rightarrow> length hs)"

subsection \<open>The dispatch wrapper\<close>

definition getargspec :: "wrapper \<Rightarrow> argspec" where
  "getargspec w =
     (case w of
        UserWrapper _ sig \<Rightarrow> sig
      | ThreadedWrapper _ \<Rightarrow>
          \<lparr>spec_args = [''func''], spec_varargs = Some ''args'', spec_keywords = Some ''kwargs''\<rparr>)"

text \<open>
  \<^verbatim>\<open>register_dispatch_wrapper\<close>, lines 15 to 39. The entry stored under
  \<^verbatim>\<open>"dispatchWrapper"\<close> is the closure \<^verbatim>\<open>_wrapper\<close> around the given wrapper; the
  model stores the wrapper it closes over, and \<open>wrapper_closure\<close> below is its body.
\<close>

definition register_dispatch_wrapper :: "wrapper \<Rightarrow> unit action" where
  "register_dispatch_wrapper w =
     (let signature = getargspec w in
      if list_ex (\<lambda>b. b)
           [length (spec_args signature) \<noteq> 1,
            spec_varargs signature = None,
            spec_keywords signature = None]
      then raise TypeError
      else modify (\<lambda>st. st\<lparr>dispatchWrapper := Some w\<rparr>))"

text \<open>
  The closure \<^verbatim>\<open>_wrapper\<close>, lines 29 to 37. \<open>call\<close> is \<^verbatim>\<open>wrapper(func, *args, **kwargs)\<close>,
  the user's wrapper around the real call; on any exception the handler looks up
  \<^verbatim>\<open>_state["currentProxy"]\<close>, calls its \<^verbatim>\<open>kill()\<close>, prints the traceback and raises the
  exception again. Nothing guards the lookup or the kill.
\<close>

definition wrapper_closure :: "env \<Rightarrow> 'a action \<Rightarrow> 'a action" where
  "wrapper_closure ev call =
     try_except call (\<lambda>_. True)
       (\<lambda>e. bind (lookup currentProxy) (\<lambda>p.
              seq (external (ProxyKill p) (proxy_kill ev p))
             (seq (emit (PrintExc e))
                  (raise e))))"

definition deregister_dispatch_wrapper :: "unit action" where
  "deregister_dispatch_wrapper =
     bind (lookup dispatchWrapper) (\<lambda>_. modify (\<lambda>st. st\<lparr>dispatchWrapper := None\<rparr>))"

definition dispatch_wrapper :: "wrapper option action" where
  "dispatch_wrapper = gets dispatchWrapper"

definition current_server :: "nat option action" where
  "current_server = gets currentServer"

text \<open>How often a kill through a proxy was attempted, read off the trace.\<close>

definition kill_attempts :: "state \<Rightarrow> nat" where
  "kill_attempts st = length (filter (\<lambda>ev. case ev of ProxyKill _ \<Rightarrow> True | _ \<Rightarrow> False) (trace st))"

subsection \<open>Callbacks\<close>

text \<open>\<^verbatim>\<open>install_callbacks\<close> and \<^verbatim>\<open>uninstall_callbacks\<close>, lines 197 to 204.\<close>

definition install_callbacks :: "unit action" where
  "install_callbacks =
     do_all [register_callback ''instanceToggled'' ToggleInstance,
             register_callback ''pluginToggled'' TogglePlugin]"

definition uninstall_callbacks :: "unit action" where
  "uninstall_callbacks =
     do_all [deregister_callback ''instanceToggled'' ToggleInstance,
             deregister_callback ''pluginToggled'' TogglePlugin]"

text \<open>\<^verbatim>\<open>uninstall\<close>, lines 73 to 76. It does not touch the key \<^verbatim>\<open>"installed"\<close>.\<close>

definition uninstall :: "unit action" where
  "uninstall =
     do_all [uninstall_callbacks,
             stdout_write ''Pyblish QML shutdown successful.\<newline>'']"

subsection \<open>Registered paths\<close>

text \<open>Lines 217 to 244. The assertion fails with \<^verbatim>\<open>AssertionError\<close>.\<close>

definition register_python_executable :: "env \<Rightarrow> string \<Rightarrow> unit action" where
  "register_python_executable ev path =
     (if is_file ev path
      then modify (\<lambda>st. st\<lparr>pythonExecutable := Some path\<rparr>)
      else raise AssertionError)"

definition registered_python_executable :: "string option action" where
  "registered_python_executable = gets pythonExecutable"

definition register_pyqt5 :: "string \<Rightarrow> unit action" where
  "register_pyqt5 path = modify (\<lambda>st. st\<lparr>pyqt5 := Some path\<rparr>)"

subsection \<open>Host adapters\<close>

text \<open>\<^verbatim>\<open>_is_headless\<close>, lines 79 to 87: no attribute \<^verbatim>\<open>activeWindow\<close> on the
  application object, or no active window.\<close>

definition is_headless :: "env \<Rightarrow> bool" where
  "is_headless ev =
     (case app ev of
        NoApp \<Rightarrow> True
      | CoreApp \<Rightarrow> True
      | GuiApp None \<Rightarrow> True
      | GuiApp (Some _) \<Rightarrow> False)"

text \<open>\<^verbatim>\<open>_on_application_quit\<close>, lines 269 to 281: the kill of the subprocess on host
  exit, where a missing server and a dead process are both passed over.\<close>

definition on_application_quit :: "env \<Rightarrow> unit action" where
  "on_application_quit ev =
     try_except
       (bind (lookup currentServer) (\<lambda>r. external (PopenKill r) (popen_kill ev r)))
       (\<lambda>e. e = KeyError \<or> e = OSError)
       (\<lambda>_. ret ())"

text \<open>\<^verbatim>\<open>app.aboutToQuit.connect(_on_application_quit)\<close>: an attribute error when there
  is no application object.\<close>

definition connect_quit_hook :: "env \<Rightarrow> unit action" where
  "connect_quit_hook ev =
     (case app ev of
        NoApp \<Rightarrow> raise AttributeError
      | _ \<Rightarrow> emit QuitHookConnected)"

text \<open>The loop of \<^verbatim>\<open>_acquire_host_main_window\<close>, lines 288 to 293: follow the parent
  links to the window that has none.\<close>

fun top_window :: "window \<Rightarrow> window" where
  "top_window (Window n None) = Window n None"
| "top_window (Window n (Some p)) = top_window p"

text \<open>\<^verbatim>\<open>_acquire_host_main_window\<close>, lines 284 to 295. Without an application object,
  without the attribute \<^verbatim>\<open>activeWindow\<close> or without an active window the first
  attribute access fails.\<close>

definition acquire_host_main_window :: "env \<Rightarrow> unit action" where
  "acquire_host_main_window ev =
     (case app ev of
        NoApp \<Rightarrow> raise AttributeError
      | CoreApp \<Rightarrow> raise AttributeError
      | GuiApp None \<Rightarrow> raise AttributeError
      | GuiApp (Some w) \<Rightarrow> modify (\<lambda>st. st\<lparr>vesselParent := Some (top_window w)\<rparr>))"

text \<open>\<^verbatim>\<open>str.split\<close> at a one-character separator, \<^verbatim>\<open>str.join\<close> and the substring
  test \<^verbatim>\<open>in\<close>, as \<^verbatim>\<open>_remove_googleapiclient\<close> uses them.\<close>

fun split_at :: "char \<Rightarrow> string \<Rightarrow> string list" where
  "split_at c [] = [[]]"
| "split_at c (x # xs) =
     (if x = c then [] # split_at c xs
      else (case split_at c xs of [] \<Rightarrow> [[x]] | w # ws \<Rightarrow> (x # w) # ws))"

fun join_with :: "char \<Rightarrow> string list \<Rightarrow> string" where
  "join_with c [] = []"
| "join_with c [w] = w"
| "join_with c (w # ws) = w @ c # join_with c ws"

fun contains :: "string \<Rightarrow> string \<Rightarrow> bool" where
  "contains [] k = (k = [])"
| "contains (x # xs) k = (take (length k) (x # xs) = k \<or> contains xs k)"

text \<open>\<^verbatim>\<open>_remove_googleapiclient\<close>, lines 298 to 313.\<close>

definition remove_googleapiclient :: "env \<Rightarrow> unit action" where
  "remove_googleapiclient ev =
     (let keyword = ''googleapiclient'' in
      bind (lookup (\<lambda>st. environ st ''PYTHONPATH'')) (\<lambda>value.
        let python_paths = split_at (pathsep ev) value;
            paths = filter (\<lambda>path. \<not> contains path keyword) python_paths
        in modify (\<lambda>st. st\<lparr>environ := (environ st)(''PYTHONPATH'' \<mapsto> join_with (pathsep ev) paths)\<rparr>)))"

text \<open>An \<^verbatim>\<open>import\<close> statement, and the label assignments that end every installer:
  a label is set only while it still has its default value.\<close>

definition import_module :: "bool \<Rightarrow> unit action" where
  "import_module found = (if found then ret () else raise ImportError)"

definition set_labels :: "string \<Rightarrow> string \<Rightarrow> unit action" where
  "set_labels label title =
     do_all
       [modify (\<lambda>st. if ContextLabel (settings st) = ContextLabelDefault (settings st)
                     then st\<lparr>settings := (settings st)\<lparr>ContextLabel := label\<rparr>\<rparr> else st),
        modify (\<lambda>st. if WindowTitle (settings st) = WindowTitleDefault (settings st)
                     then st\<lparr>settings := (settings st)\<lparr>WindowTitle := title\<rparr>\<rparr> else st)]"

text \<open>The widget named \<^verbatim>\<open>"MayaWindow"\<close> in the dictionary built from the top-level
  widgets (a later widget of the same name replaces an earlier one).\<close>

definition maya_window :: "env \<Rightarrow> unit action" where
  "maya_window ev =
     (case find (\<lambda>w. objectName w = ''MayaWindow'') (rev (topLevelWidgets ev)) of
        None \<Rightarrow> raise KeyError
      | Some w \<Rightarrow> modify (\<lambda>st. st\<lparr>vesselParent := Some w\<rparr>))"

text \<open>\<^verbatim>\<open>_install_maya\<close>, lines 316 to 345.\<close>

definition install_maya :: "env \<Rightarrow> unit action" where
  "install_maya ev =
     do_all
       [import_module (can_import_maya ev),
        (if maya_version ev = ''2018'' then remove_googleapiclient ev else ret ()),
        stdout_write ''Setting up Pyblish QML in Maya\<newline>'',
        register_dispatch_wrapper (ThreadedWrapper Maya),
        (if \<not> is_headless ev
         then do_all [connect_quit_hook ev, maya_window ev]
         else ret ()),
        set_labels ''Maya'' ''Pyblish (Maya)'']"

text \<open>\<^verbatim>\<open>_install_houdini\<close>, lines 348 to 366.\<close>

definition install_houdini :: "env \<Rightarrow> unit action" where
  "install_houdini ev =
     do_all
       [import_module (can_import_hdefereval ev),
        stdout_write ''Setting up Pyblish QML in Houdini\<newline>'',
        register_dispatch_wrapper (ThreadedWrapper Houdini),
        connect_quit_hook ev,
        acquire_host_main_window ev,
        set_labels ''Houdini'' ''Pyblish (Houdini)'']"

text \<open>\<^verbatim>\<open>_install_nuke\<close>, lines 369 to 395: a launch as Hiero, NukeStudio or
  NukeAssist is signalled as \<^verbatim>\<open>ImportError\<close>, like a failed import.\<close>

definition install_nuke :: "env \<Rightarrow> unit action" where
  "install_nuke ev =
     do_all
       [import_module (can_import_nuke ev),
        (let not_nuke_launch =
               (''--hiero'' \<in> set (rawArgs ev) \<or>
                ''--studio'' \<in> set (rawArgs ev) \<or>
                ''--nukeassist'' \<in> set (rawArgs ev))
         in if not_nuke_launch then raise ImportError else ret ()),
        stdout_write ''Setting up Pyblish QML in Nuke\<newline>'',
        register_dispatch_wrapper (ThreadedWrapper Nuke),
        connect_quit_hook ev,
        acquire_host_main_window ev,
        set_labels ''Nuke'' ''Pyblish (Nuke)'']"

text \<open>\<^verbatim>\<open>_install_nukeassist\<close>, lines 398 to 419.\<close>

definition install_nukeassist :: "env \<Rightarrow> unit action" where
  "install_nukeassist ev =
     do_all
       [import_module (can_import_nuke ev),
        (if ''--nukeassist'' \<notin> set (rawArgs ev) then raise ImportError else ret ()),
        stdout_write ''Setting up Pyblish QML in NukeAssist\<newline>'',
        register_dispatch_wrapper (ThreadedWrapper NukeAssist),
        connect_quit_hook ev,
        acquire_host_main_window ev,
        set_labels ''NukeAssist'' ''Pyblish (NukeAssist)'']"

text \<open>\<^verbatim>\<open>_install_hiero\<close>, lines 422 to 444.\<close>

definition install_hiero :: "env \<Rightarrow> unit action" where
  "install_hiero ev =
     do_all
       [import_module (can_import_hiero ev),
        import_module (can_import_nuke ev),
        (if ''--hiero'' \<notin> set (rawArgs ev) then raise ImportError else ret ()),
        stdout_write ''Setting up Pyblish QML in Hiero\<newline>'',
        register_dispatch_wrapper (ThreadedWrapper Hiero),
        connect_quit_hook ev,
        acquire_host_main_window ev,
        set_labels ''Hiero'' ''Pyblish (Hiero)'']"

text \<open>\<^verbatim>\<open>_install_nukestudio\<close>, lines 447 to 468.\<close>

definition install_nukestudio :: "env \<Rightarrow> unit action" where
  "install_nukestudio ev =
     do_all
       [import_module (can_import_nuke ev),
        (if ''--studio'' \<notin> set (rawArgs ev) then raise ImportError else ret ()),
        stdout_write ''Setting up Pyblish QML in NukeStudio\<newline>'',
        register_dispatch_wrapper (ThreadedWrapper NukeStudio),
        connect_quit_hook ev,
        acquire_host_main_window ev,
        set_labels ''NukeStudio'' ''Pyblish (NukeStudio)'']"

fun installer :: "host \<Rightarrow> env \<Rightarrow> unit action" where
  "installer Maya = install_maya"
| "installer Houdini = install_houdini"
| "installer Nuke = install_nuke"
| "installer NukeAssist = install_nukeassist"
| "installer Hiero = install_hiero"
| "installer NukeStudio = install_nukestudio"

text \<open>
  The loop of \<^verbatim>\<open>install_host\<close>, lines 255 to 266, over the installers still to try:
  \<^verbatim>\<open>ImportError\<close> passes on to the next one, a normal return breaks out of the loop,
  and any other exception leaves the function.
\<close>

fun install_loop :: "host list \<Rightarrow> env \<Rightarrow> unit action" where
  "install_loop [] ev st = (st, Inr ())"
| "install_loop (h # hs) ev st =
     (case installer h ev st of
        (st', Inr _) \<Rightarrow> (st', Inr ())
      | (st', Inl e) \<Rightarrow> if e = ImportError then install_loop hs ev st' else (st', Inl e))"

definition host_order :: "host list" where
  "host_order = [Maya, Houdini, Nuke, NukeAssist, Hiero, NukeStudio]"

definition install_host :: "env \<Rightarrow> unit action" where
  "install_host ev = install_loop host_order ev"

subsection \<open>Install\<close>

text \<open>\<^verbatim>\<open>install\<close>, lines 54 to 70.\<close>

definition install :: "env \<Rightarrow> unit action" where
  "install ev =
     do_all
       [bind (gets installed) (\<lambda>i.
          if i then do_all [stdout_write ''Already installed, uninstalling..\<newline>'', uninstall]
          else ret ()),
        install_callbacks,
        install_host ev,
        modify (\<lambda>st. st\<lparr>installed := True\<rparr>)]"

subsection \<open>Show, publish, validate\<close>

text \<open>Lines 98 to 100: the modality asked for, or the truth value of the environment
  variable (any non-empty string is true).\<close>

definition requested_modal :: "bool option \<Rightarrow> bool action" where
  "requested_modal modal_arg =
     (case modal_arg of
        Some b \<Rightarrow> ret b
      | None \<Rightarrow>
          bind (gets (\<lambda>st. environ st ''PYBLISH_QML_MODAL'')) (\<lambda>v.
            ret (case v of None \<Rightarrow> False | Some s \<Rightarrow> s \<noteq> [])))"

text \<open>Lines 102 to 104: install when the key \<^verbatim>\<open>"installed"\<close> is not set.\<close>

definition auto_install :: "env \<Rightarrow> unit action" where
  "auto_install ev = bind (gets installed) (\<lambda>i. if \<not> i then install ev else ret ())"

text \<open>\<^verbatim>\<open>server.modal = modal\<close> on the object a reference points to.\<close>

definition set_modal :: "nat \<Rightarrow> bool \<Rightarrow> unit action" where
  "set_modal r m =
     modify (\<lambda>st. st\<lparr>servers := (servers st)(r := map_option (\<lambda>s. s\<lparr>modal := m\<rparr>) (servers st r))\<rparr>)"

text \<open>The exception classes of \<^verbatim>\<open>except (IOError, KeyError)\<close>, and
  \<^verbatim>\<open>_state.pop("currentServer")\<close>.\<close>

definition stale :: "exn \<Rightarrow> bool" where
  "stale e = (e = IOError \<or> e = KeyError)"

definition pop_currentServer :: "unit action" where
  "pop_currentServer =
     bind (lookup currentServer) (\<lambda>_. modify (\<lambda>st. st\<lparr>currentServer := None\<rparr>))"

text \<open>The body of the \<^verbatim>\<open>try\<close> of \<^verbatim>\<open>show\<close>, lines 112 to 114.\<close>

definition show_delegate :: "nat \<Rightarrow> env \<Rightarrow> unit action" where
  "show_delegate r ev =
     bind (lookup currentProxy) (\<lambda>p.
       do_all [external (ProxyUpdate p r) (proxy_update ev p),
               bind (gets settings) (\<lambda>s. external (ProxyShow p s) (proxy_show ev p))])"

text \<open>
  Lines 108 to 119, for a registered server \<open>r\<close>. The result is \<open>Some r\<close> when the
  function returns the server from inside the \<^verbatim>\<open>try\<close>, and \<open>None\<close> when the handler
  has run and control leaves the \<^verbatim>\<open>if\<close> block.
\<close>

definition show_existing :: "nat \<Rightarrow> bool \<Rightarrow> env \<Rightarrow> nat option action" where
  "show_existing r m ev =
     seq (set_modal r m)
       (try_except (seq (show_delegate r ev) (ret (Some r))) stale
          (\<lambda>_. seq pop_currentServer (ret None)))"

text \<open>Lines 123 to 142: outside headless mode a splash screen is shown and an
  \<^verbatim>\<open>on_shown\<close> closure is registered for \<^verbatim>\<open>"pyblishQmlShown"\<close>. The result is the
  identity of the splash screen, \<open>None\<close> in headless mode.\<close>

definition splash_setup :: "env \<Rightarrow> nat option action" where
  "splash_setup ev =
     (if \<not> is_headless ev
      then bind (gets fresh) (\<lambda>k.
             seq (do_all [modify (\<lambda>st. st\<lparr>fresh := Suc k\<rparr>),
                          emit (SplashShow k),
                          register_callback ''pyblishQmlShown'' (OnShown k)])
                 (ret (Some k)))
      else ret None)"

text \<open>The two definitions of \<^verbatim>\<open>on_shown\<close>, lines 128 to 136 and 141 to 142. Closing
  a splash screen that is already deleted raises \<^verbatim>\<open>RuntimeError\<close>, which is passed
  over.\<close>

definition on_shown :: "nat option \<Rightarrow> env \<Rightarrow> unit action" where
  "on_shown splash ev =
     (case splash of
        None \<Rightarrow> ret ()
      | Some k \<Rightarrow>
          do_all
            [try_except
               (external (SplashClose k) (if splash_deleted ev then Some RuntimeError else None))
               (\<lambda>e. e = RuntimeError)
               (\<lambda>_. ret ()),
             deregister_callback ''pyblishQmlShown'' (OnShown k)])"

text \<open>The body of the \<^verbatim>\<open>try\<close> of lines 145 and 146: the service, then the server
  object with the targets and the modality asked for.\<close>

definition construct :: "string list \<Rightarrow> bool \<Rightarrow> env \<Rightarrow> nat action" where
  "construct targets_arg m ev =
     seq (external ServiceInit (service_init ev))
       (bind (gets fresh) (\<lambda>r.
          seq (external (ServerInit r) (server_init ev))
         (seq (modify (\<lambda>st. st\<lparr>servers := (servers st)(r \<mapsto> \<lparr>modal = m, targets = targets_arg\<rparr>),
                                 fresh := Suc r\<rparr>))
              (ret r))))"

text \<open>Lines 152 to 164, for the new server \<open>r\<close>. \<^verbatim>\<open>server.listen()\<close> blocks until
  the session ends; the model covers a session that ends, by a return or by an exception,
  and takes what the GUI process asks for in the meantime to be outside this module.\<close>

definition start_session :: "nat \<Rightarrow> env \<Rightarrow> nat option action" where
  "start_session r ev =
     (let p = Proxy r (is_headless ev) in
      seq (do_all
             [external (ProxyInit p) (proxy_init ev),
              bind (gets settings) (\<lambda>s. external (ProxyShow p s) (proxy_show ev p)),
              modify (\<lambda>st. st\<lparr>currentServer := Some r\<rparr>),
              modify (\<lambda>st. st\<lparr>currentProxy := Some p\<rparr>),
              stdout_write ''Success. QML server available as pyblish_qml.api.current_server()\<newline>'',
              external (Listen r) (listen ev)])
          (ret (Some r)))"

text \<open>Lines 121 to 164: the start of a new session. The result is the new server, or
  \<open>None\<close>, the value of \<^verbatim>\<open>on_shown()\<close>, when the construction failed.\<close>

definition show_new :: "string list \<Rightarrow> bool \<Rightarrow> env \<Rightarrow> nat option action" where
  "show_new targets_arg m ev =
     bind (splash_setup ev) (\<lambda>splash.
       bind (try_except
               (bind (construct targets_arg m ev) (\<lambda>r. ret (Some r)))
               (\<lambda>_. True)
               (\<lambda>e. seq (do_all [emit (PrintExc e), on_shown splash ev]) (ret None)))
         (\<lambda>c. case c of
                 None \<Rightarrow> ret None
               | Some r \<Rightarrow> start_session r ev))"

text \<open>Lines 106 to 164: what \<^verbatim>\<open>show\<close> does once the bridge is installed. A server
  object counts as true in the test of line 107, so the test is whether the key is
  present.\<close>

definition show_body :: "string list \<Rightarrow> bool \<Rightarrow> env \<Rightarrow> nat option action" where
  "show_body targets_arg m ev =
     bind (gets currentServer) (\<lambda>cs.
       bind (case cs of Some r \<Rightarrow> show_existing r m ev | None \<Rightarrow> ret None) (\<lambda>reused.
         case reused of
           Some r \<Rightarrow> ret (Some r)
         | None \<Rightarrow> show_new targets_arg m ev))"

text \<open>\<^verbatim>\<open>show\<close>, lines 90 to 164 (the parameter \<^verbatim>\<open>parent\<close> is never used).\<close>

definition show_qml :: "string list \<Rightarrow> bool option \<Rightarrow> env \<Rightarrow> nat option action" where
  "show_qml targets_arg modal_arg ev =
     bind (requested_modal modal_arg) (\<lambda>m.
       seq (auto_install ev) (show_body targets_arg m ev))"

text \<open>The bodies of the \<^verbatim>\<open>try\<close> of \<^verbatim>\<open>publish\<close> and \<^verbatim>\<open>validate\<close>, lines 173 to 175
  and 188 to 190.\<close>

definition publish_delegate :: "nat \<Rightarrow> env \<Rightarrow> unit action" where
  "publish_delegate r ev =
     bind (lookup currentProxy) (\<lambda>p.
       do_all [external (ProxyUpdate p r) (proxy_update ev p),
               external (ProxyPublish p) (proxy_publish ev p)])"

definition validate_delegate :: "nat \<Rightarrow> env \<Rightarrow> unit action" where
  "validate_delegate r ev =
     bind (lookup currentProxy) (\<lambda>p.
       do_all [external (ProxyUpdate p r) (proxy_update ev p),
               external (ProxyValidate p) (proxy_validate ev p)])"

text \<open>\<^verbatim>\<open>publish\<close>, lines 167 to 179, and \<^verbatim>\<open>validate\<close>, lines 182 to 194.\<close>

definition publish :: "env \<Rightarrow> unit action" where
  "publish ev =
     bind (gets currentServer) (\<lambda>cs.
       case cs of
         None \<Rightarrow> ret ()
       | Some r \<Rightarrow> try_except (publish_delegate r ev) stale (\<lambda>_. pop_currentServer))"

definition validate :: "env \<Rightarrow> unit action" where
  "validate ev =
     bind (gets currentServer) (\<lambda>cs.
       case cs of
         None \<Rightarrow> ret ()
       | Some r \<Rightarrow> try_except (validate_delegate r ev) stale (\<lambda>_. pop_currentServer))"

subsection \<open>Sequences of calls\<close>

text \<open>The entry points that work on the registry, and the state a sequence of calls
  leaves behind, each call in an environment of its own. A call that raises leaves the
  state of the moment of the raise.\<close>

datatype call = Install | Uninstall | Show "string list" "bool option" | Publish | Validate

fun run_call :: "call \<Rightarrow> env \<Rightarrow> state \<Rightarrow> state" where
  "run_call Install ev st = fst (install ev st)"
| "run_call Uninstall ev st = fst (uninstall st)"
| "run_call (Show t m) ev st = fst (show_qml t m ev st)"
| "run_call Publish ev st = fst (publish ev st)"
| "run_call Validate ev st = fst (validate ev st)"

fun run_calls :: "(call \<times> env) list \<Rightarrow> state \<Rightarrow> state" where
  "run_calls [] st = st"
| "run_calls ((c, ev) # cs) st = run_calls cs (run_call c ev st)"

text \<open>A state at process start: nothing registered, no environment variable set, and
  the two labels of the settings at their defaults (the strings stand for whatever the
  settings module holds).\<close>

definition initial_state :: state where
  "initial_state =
     \<lparr>installed = False, currentServer = None, currentProxy = None, dispatchWrapper = None,
      vesselParent = None, pythonExecutable = None, pyqt5 = None, environ = Map.empty,
      settings = \<lparr>ContextLabel = ''Context'', WindowTitle = ''Pyblish'',
                  ContextLabelDefault = ''Context'', WindowTitleDefault = ''Pyblish''\<rparr>,
      callbacks = Map.empty, servers = Map.empty, fresh = 0, trace = []\<rparr>"

text \<open>A host in which none of the supported applications is found and every
  collaborator call returns: a plain Python interpreter without a Qt application.\<close>

definition plain_env :: env where
  "plain_env =
     \<lparr>can_import_maya = False, maya_version = [], can_import_hdefereval = False,
      can_import_nuke = False, can_import_hiero = False, rawArgs = [], pathsep = CHR '':'',
      is_file = (\<lambda>_. False), app = NoApp, topLevelWidgets = [], splash_deleted = False,
      service_init = None, server_init = None, proxy_init = None,
      proxy_update = (\<lambda>_. None), proxy_show = (\<lambda>_. None), proxy_publish = (\<lambda>_. None),
      proxy_validate = (\<lambda>_. None), proxy_kill = (\<lambda>_. None), popen_kill = (\<lambda>_. None),
      listen = None\<rparr>"

text \<open>
  The signature the spec asks of a wrapper, in its words: exactly one positional
  parameter (the callable), plus variadic positional and variadic keyword arguments.
\<close>

definition conforming :: "argspec \<Rightarrow> bool" where
  "conforming sig =
     (length (spec_args sig) = 1 \<and> spec_varargs sig \<noteq> None \<and> spec_keywords sig \<noteq> None)"

subsection \<open>Notions used in the statements\<close>

text \<open>An action keeps an observation of the state: the observation has the same value
  after the action as before, whether the action returns or raises.\<close>

definition keeps :: "(state \<Rightarrow> 'a) \<Rightarrow> 'b action \<Rightarrow> bool" where
  "keeps f m = (\<forall>st. f (fst (m st)) = f st)"

text \<open>The first host of the order whose installer does not report "not this host".\<close>

definition first_applicable :: "env \<Rightarrow> state \<Rightarrow> host option" where
  "first_applicable ev st = find (\<lambda>h. snd (installer h ev st) \<noteq> Inl ImportError) host_order"

text \<open>A host environment in which both Maya and Houdini are detectable, with a Maya
  main window open.\<close>

definition maya_and_houdini_env :: env where
  "maya_and_houdini_env =
     plain_env\<lparr>can_import_maya := True, maya_version := ''2020'',
               can_import_hdefereval := True,
               app := GuiApp (Some (Window ''panel'' (Some (Window ''MayaWindow'' None)))),
               topLevelWidgets := [Window ''MayaWindow'' None]\<rparr>"

text \<open>Nuke in terminal mode: the module \<^verbatim>\<open>nuke\<close> can be imported, there is no Qt
  application object.\<close>

definition nuke_terminal_env :: env where
  "nuke_terminal_env = plain_env\<lparr>can_import_nuke := True\<rparr>"

text \<open>The exception with which the construction of lines 145 and 146 fails, if it does:
  that of the service, else that of the server.\<close>

definition construction_failure :: "env \<Rightarrow> exn option" where
  "construction_failure ev =
     (case service_init ev of Some e \<Rightarrow> Some e | None \<Rightarrow> server_init ev)"

text \<open>The events of a construction that fails, for the next free identity \<open>k\<close>.\<close>

definition construction_events :: "env \<Rightarrow> nat \<Rightarrow> event list" where
  "construction_events ev k =
     (case service_init ev of Some _ \<Rightarrow> [ServiceInit] | None \<Rightarrow> [ServiceInit, ServerInit k])"

text \<open>Maya with its main window open, where the GUI process cannot be spawned.\<close>

definition spawn_failure_env :: env where
  "spawn_failure_env = maya_and_houdini_env\<lparr>server_init := Some OSError\<rparr>"

text \<open>The state after a first \<^verbatim>\<open>show()\<close> at process start in the plain interpreter,
  once its session has ended: server 0 and its proxy are registered.\<close>

definition running_state :: state where
  "running_state = fst (show_qml [] None plain_env initial_state)"

text \<open>The plain interpreter after the subprocess of server 0 has gone: every command
  through its proxy fails with \<^verbatim>\<open>IOError\<close>.\<close>

definition vanished_env :: env where
  "vanished_env =
     plain_env\<lparr>proxy_update := (\<lambda>p. if pserver p = 0 then Some IOError else None),
               proxy_show := (\<lambda>p. if pserver p = 0 then Some IOError else None),
               proxy_publish := (\<lambda>p. if pserver p = 0 then Some IOError else None),
               proxy_validate := (\<lambda>p. if pserver p = 0 then Some IOError else None)\<rparr>"

text \<open>An action preserves a property of the state, whether it returns or raises.\<close>

definition preserves :: "(state \<Rightarrow> bool) \<Rightarrow> 'a action \<Rightarrow> bool" where
  "preserves I m = (\<forall>st. I st \<longrightarrow> I (fst (m st)))"

text \<open>What the code maintains between the two registry entries: a registered server
  has a registered proxy.\<close>

definition server_has_proxy :: "state \<Rightarrow> bool" where
  "server_has_proxy st = (currentServer st = None \<or> currentProxy st \<noteq> None)"

text \<open>The plain interpreter, where the GUI process cannot be spawned.\<close>

definition headless_spawn_failure_env :: env where
  "headless_spawn_failure_env = plain_env\<lparr>server_init := Some OSError\<rparr>"

section \<open>Verification\<close>

subsection \<open>Evaluation of actions\<close>

lemmas action_defs =
  ret_def raise_def bind_def seq_def try_except_def gets_def modify_def emit_def
  external_def lookup_def stdout_write_def

lemma keepsD: "keeps f m \<Longrightarrow> f (fst (m st)) = f st"
  by (simp add: keeps_def)

lemma keepsD2: "keeps f m \<Longrightarrow> m st = (st', r) \<Longrightarrow> f st' = f st"
  by (metis keepsD fst_conv)

lemma keeps_ret: "keeps f (ret v)"
  by (simp add: keeps_def ret_def)

lemma keeps_raise: "keeps f (raise e)"
  by (simp add: keeps_def raise_def)

lemma keeps_gets: "keeps f (gets g)"
  by (simp add: keeps_def gets_def)

lemma keeps_modify: "(\<And>st. f (u st) = f st) \<Longrightarrow> keeps f (modify u)"
  by (simp add: keeps_def modify_def)

lemma keeps_bind: "keeps f m \<Longrightarrow> (\<And>v. keeps f (g v)) \<Longrightarrow> keeps f (bind m g)"
  by (auto simp: keeps_def bind_def split: prod.splits sum.splits) (metis fst_conv)+

lemma keeps_seq: "keeps f m \<Longrightarrow> keeps f n \<Longrightarrow> keeps f (seq m n)"
  by (simp add: seq_def keeps_bind)

lemma keeps_try_except: "keeps f m \<Longrightarrow> (\<And>e. keeps f (h e)) \<Longrightarrow> keeps f (try_except m c h)"
  by (auto simp: keeps_def try_except_def split: prod.splits sum.splits) (metis fst_conv)+

lemma keeps_emit: "(\<And>st t. f (st\<lparr>trace := t\<rparr>) = f st) \<Longrightarrow> keeps f (emit ev)"
  by (simp add: emit_def keeps_modify)

lemma keeps_external: "(\<And>st t. f (st\<lparr>trace := t\<rparr>) = f st) \<Longrightarrow> keeps f (external ev out)"
  by (cases out) (simp_all add: external_def keeps_seq keeps_emit keeps_ret keeps_raise)

lemma keeps_lookup: "keeps f (lookup g)"
  by (auto simp: lookup_def intro!: keeps_bind keeps_gets keeps_raise keeps_ret split: option.splits)

lemmas keeps_intros = keeps_ret keeps_raise keeps_gets keeps_modify keeps_bind keeps_seq
  keeps_try_except keeps_emit keeps_external keeps_lookup

lemma keeps_register_dispatch_wrapper:
  "(\<And>st v. f (st\<lparr>dispatchWrapper := v\<rparr>) = f st) \<Longrightarrow> keeps f (register_dispatch_wrapper w)"
  by (simp add: register_dispatch_wrapper_def Let_def keeps_intros)

text \<open>An installer changes nothing but the trace, the dispatch wrapper, the captured
  window, the environment variables and the settings.\<close>

lemma keeps_installer:
  assumes t: "\<And>st v. f (st\<lparr>trace := v\<rparr>) = f st"
      and d: "\<And>st v. f (st\<lparr>dispatchWrapper := v\<rparr>) = f st"
      and p: "\<And>st v. f (st\<lparr>vesselParent := v\<rparr>) = f st"
      and e: "\<And>st v. f (st\<lparr>environ := v\<rparr>) = f st"
      and s: "\<And>st v. f (st\<lparr>settings := v\<rparr>) = f st"
  shows "keeps f (installer h ev)"
proof -
  have imp: "keeps f (import_module b)" for b
    by (simp add: import_module_def keeps_intros)
  have out: "keeps f (stdout_write x)" for x
    by (simp add: stdout_write_def keeps_emit t)
  have reg: "keeps f (register_dispatch_wrapper w)" for w
    by (rule keeps_register_dispatch_wrapper) (rule d)
  have hook: "keeps f (connect_quit_hook ev)"
    by (cases "app ev") (simp_all add: connect_quit_hook_def keeps_raise keeps_emit t)
  have acq: "keeps f (acquire_host_main_window ev)"
    by (simp add: acquire_host_main_window_def keeps_raise keeps_modify p
          split: qapp.split option.split)
  have lab: "keeps f (set_labels a b)" for a b
    by (simp add: set_labels_def keeps_seq keeps_ret keeps_modify s)
  have goo: "keeps f (remove_googleapiclient ev)"
    by (simp add: remove_googleapiclient_def Let_def keeps_bind keeps_lookup keeps_modify e)
  have win: "keeps f (maya_window ev)"
    by (simp add: maya_window_def keeps_raise keeps_modify p split: option.split)
  note parts = imp out reg hook acq lab goo win keeps_ret keeps_raise keeps_seq
  show ?thesis
    by (cases h)
       (simp_all add: install_maya_def install_houdini_def install_nuke_def
          install_nukeassist_def install_hiero_def install_nukestudio_def Let_def parts)
qed

lemma keeps_install_loop:
  assumes "\<And>h. keeps f (installer h ev)"
  shows "keeps f (install_loop hs ev)"
proof (induction hs)
  case Nil
  show ?case by (simp add: keeps_def)
next
  case (Cons h hs)
  show ?case
    unfolding keeps_def
  proof
    fix st
    obtain st' r where run: "installer h ev st = (st', r)"
      by (cases "installer h ev st")
    have same: "f st' = f st"
      using keepsD2 [OF assms run] .
    show "f (fst (install_loop (h # hs) ev st)) = f st"
      using run same keepsD [OF Cons.IH, of st']
      by (cases r) simp_all
  qed
qed

lemma keeps_install_host:
  assumes "\<And>st v. f (st\<lparr>trace := v\<rparr>) = f st"
      and "\<And>st v. f (st\<lparr>dispatchWrapper := v\<rparr>) = f st"
      and "\<And>st v. f (st\<lparr>vesselParent := v\<rparr>) = f st"
      and "\<And>st v. f (st\<lparr>environ := v\<rparr>) = f st"
      and "\<And>st v. f (st\<lparr>settings := v\<rparr>) = f st"
  shows "keeps f (install_host ev)"
  unfolding install_host_def
  by (rule keeps_install_loop) (rule keeps_installer [OF assms])

subsection \<open>Registration of a dispatch wrapper\<close>

text \<open>
  C5. \<^verbatim>\<open>register_dispatch_wrapper(w)\<close> raises \<^verbatim>\<open>TypeError\<close> (the signature mismatch)
  whenever the signature of \<open>w\<close> is not one positional parameter plus variadic positional
  and keyword arguments, and then the state, the registered dispatch wrapper included, is
  as before; for a conforming \<open>w\<close> the call returns and the wrapper is the registered one.
\<close>

theorem register_dispatch_wrapper_signature:
  "(\<not> conforming (getargspec w) \<longrightarrow>
      register_dispatch_wrapper w st = (st, Inl TypeError)) \<and>
   (conforming (getargspec w) \<longrightarrow>
      register_dispatch_wrapper w st = (st\<lparr>dispatchWrapper := Some w\<rparr>, Inr ()))"
  by (simp add: register_dispatch_wrapper_def conforming_def Let_def action_defs)

theorem register_dispatch_wrapper_signature_witness:
  "\<not> conforming (getargspec (UserWrapper ''two_args''
       \<lparr>spec_args = [''func'', ''extra''], spec_varargs = Some ''args'', spec_keywords = Some ''kwargs''\<rparr>)) \<and>
   register_dispatch_wrapper (UserWrapper ''two_args''
       \<lparr>spec_args = [''func'', ''extra''], spec_varargs = Some ''args'', spec_keywords = Some ''kwargs''\<rparr>)
     initial_state = (initial_state, Inl TypeError) \<and>
   conforming (getargspec (ThreadedWrapper Maya)) \<and>
   register_dispatch_wrapper (ThreadedWrapper Maya) initial_state =
     (initial_state\<lparr>dispatchWrapper := Some (ThreadedWrapper Maya)\<rparr>, Inr ())"
  using register_dispatch_wrapper_signature
          [of "UserWrapper ''two_args''
                 \<lparr>spec_args = [''func'', ''extra''], spec_varargs = Some ''args'',
                  spec_keywords = Some ''kwargs''\<rparr>" initial_state]
        register_dispatch_wrapper_signature [of "ThreadedWrapper Maya" initial_state]
  by (simp add: conforming_def getargspec_def)

subsection \<open>Publish and validate without a server\<close>

text \<open>
  C9. \<^verbatim>\<open>publish()\<close> and \<^verbatim>\<open>validate()\<close>, called when no server is registered, return
  without raising and leave the process state as it was.
\<close>

theorem publish_validate_without_server:
  assumes "currentServer st = None"
  shows "publish ev st = (st, Inr ()) \<and> validate ev st = (st, Inr ())"
  using assms by (simp add: publish_def validate_def action_defs)

theorem publish_validate_without_server_witness:
  "currentServer initial_state = None \<and>
   publish plain_env initial_state = (initial_state, Inr ()) \<and>
   validate plain_env initial_state = (initial_state, Inr ())"
proof -
  have none: "currentServer initial_state = None"
    by (simp add: initial_state_def)
  from publish_validate_without_server [OF none, of plain_env] none
  show ?thesis by simp
qed

subsection \<open>The host adapter chain\<close>

text \<open>An installer that reports "not this host" has changed nothing: the
  \<^verbatim>\<open>ImportError\<close> comes from the probes at its start.\<close>

lemma installer_miss_unchanged:
  assumes "installer h ev st = (st', Inl ImportError)"
  shows "st' = st"
  using assms
  by (cases h)
     (auto simp: install_maya_def install_houdini_def install_nuke_def
        install_nukeassist_def install_hiero_def install_nukestudio_def
        import_module_def register_dispatch_wrapper_def getargspec_def
        connect_quit_hook_def acquire_host_main_window_def maya_window_def
        remove_googleapiclient_def set_labels_def Let_def action_defs
        split: if_splits option.splits qapp.splits)

lemma install_loop_find:
  "install_loop hs ev st =
     (case find (\<lambda>h. snd (installer h ev st) \<noteq> Inl ImportError) hs of
        None \<Rightarrow> (st, Inr ())
      | Some h \<Rightarrow> installer h ev st)"
proof (induction hs)
  case Nil
  show ?case by simp
next
  case (Cons h hs)
  obtain st' r where run: "installer h ev st = (st', r)"
    by (cases "installer h ev st")
  show ?case
  proof (cases "r = Inl ImportError")
    case True
    with run have "st' = st"
      by (simp add: installer_miss_unchanged)
    with run True Cons.IH show ?thesis by simp
  next
    case False
    with run show ?thesis by (cases r) simp_all
  qed
qed

text \<open>An installer leaves the registered wrapper as it was or registers its own.\<close>

lemma installer_wrapper:
  "dispatchWrapper (fst (installer h ev st)) = dispatchWrapper st \<or>
   dispatchWrapper (fst (installer h ev st)) = Some (ThreadedWrapper h)"
  by (cases h)
     (auto simp: install_maya_def install_houdini_def install_nuke_def
        install_nukeassist_def install_hiero_def install_nukestudio_def
        import_module_def register_dispatch_wrapper_def getargspec_def
        connect_quit_hook_def acquire_host_main_window_def maya_window_def
        remove_googleapiclient_def set_labels_def Let_def action_defs
        split: if_splits option.splits qapp.splits)

text \<open>
  C6. \<^verbatim>\<open>install_host()\<close> tries the installers in the order Maya, Houdini, Nuke,
  NukeAssist, Hiero, NukeStudio. An installer that reports "not this host"
  (\<^verbatim>\<open>ImportError\<close>) has changed nothing and the next one is tried; the call ends with the
  first installer that does anything else, returning if it returned and raising what it
  raised. So at most one installer has run to effect, and the dispatch wrapper after the
  call is the one before it or the wrapper of that first installer.
\<close>

theorem install_host_first_applicable:
  "host_order = [Maya, Houdini, Nuke, NukeAssist, Hiero, NukeStudio] \<and>
   install_host ev st =
     (case first_applicable ev st of
        None \<Rightarrow> (st, Inr ())
      | Some h \<Rightarrow> installer h ev st) \<and>
   (\<forall>h. snd (installer h ev st) = Inl ImportError \<longrightarrow> fst (installer h ev st) = st) \<and>
   (dispatchWrapper (fst (install_host ev st)) = dispatchWrapper st \<or>
    (\<exists>h. first_applicable ev st = Some h \<and>
         dispatchWrapper (fst (install_host ev st)) = Some (ThreadedWrapper h)))"
proof -
  have chain: "install_host ev st =
     (case first_applicable ev st of None \<Rightarrow> (st, Inr ()) | Some h \<Rightarrow> installer h ev st)"
    by (simp add: install_host_def first_applicable_def install_loop_find)
  have miss: "\<forall>h. snd (installer h ev st) = Inl ImportError \<longrightarrow> fst (installer h ev st) = st"
    by (metis installer_miss_unchanged prod.collapse)
  have wrap: "dispatchWrapper (fst (install_host ev st)) = dispatchWrapper st \<or>
    (\<exists>h. first_applicable ev st = Some h \<and>
         dispatchWrapper (fst (install_host ev st)) = Some (ThreadedWrapper h))"
  proof (cases "first_applicable ev st")
    case None
    with chain show ?thesis by simp
  next
    case (Some h)
    with chain installer_wrapper [of h ev st] show ?thesis by auto
  qed
  from chain miss wrap show ?thesis
    by (simp add: host_order_def)
qed

lemma maya_and_houdini_maya:
  "snd (installer Maya maya_and_houdini_env initial_state) = Inr () \<and>
   dispatchWrapper (fst (installer Maya maya_and_houdini_env initial_state)) =
     Some (ThreadedWrapper Maya)"
  by (simp add: install_maya_def import_module_def register_dispatch_wrapper_def
        getargspec_def connect_quit_hook_def maya_window_def set_labels_def is_headless_def
        action_defs maya_and_houdini_env_def plain_env_def initial_state_def)

lemma maya_and_houdini_houdini:
  "snd (installer Houdini maya_and_houdini_env initial_state) = Inr ()"
  by (simp add: install_houdini_def import_module_def register_dispatch_wrapper_def
        getargspec_def connect_quit_hook_def acquire_host_main_window_def set_labels_def
        action_defs maya_and_houdini_env_def plain_env_def initial_state_def)

lemma maya_and_houdini_nuke:
  "installer Nuke maya_and_houdini_env initial_state = (initial_state, Inl ImportError)"
  by (simp add: install_nuke_def import_module_def
        action_defs maya_and_houdini_env_def plain_env_def)

theorem install_host_first_applicable_witness:
  "snd (installer Maya maya_and_houdini_env initial_state) = Inr () \<and>
   snd (installer Houdini maya_and_houdini_env initial_state) = Inr () \<and>
   first_applicable maya_and_houdini_env initial_state = Some Maya \<and>
   install_host maya_and_houdini_env initial_state =
     installer Maya maya_and_houdini_env initial_state \<and>
   dispatchWrapper (fst (install_host maya_and_houdini_env initial_state)) =
     Some (ThreadedWrapper Maya) \<and>
   snd (installer Nuke maya_and_houdini_env initial_state) = Inl ImportError \<and>
   fst (installer Nuke maya_and_houdini_env initial_state) = initial_state"
proof -
  have first: "first_applicable maya_and_houdini_env initial_state = Some Maya"
    using maya_and_houdini_maya by (simp add: first_applicable_def host_order_def)
  from install_host_first_applicable [of maya_and_houdini_env initial_state] first
  have "install_host maya_and_houdini_env initial_state =
          installer Maya maya_and_houdini_env initial_state"
    by simp
  with first maya_and_houdini_maya maya_and_houdini_houdini maya_and_houdini_nuke
  show ?thesis by simp
qed

subsection \<open>The dispatch wrapper on an exception\<close>

text \<open>
  C1. The installed dispatch wrapper at a failing input: a conforming wrapper is
  registered at process start, so no proxy is registered, and the wrapped call raises
  \<^verbatim>\<open>RuntimeError\<close>. The handler's lookup \<^verbatim>\<open>_state["currentProxy"]\<close> raises
  \<^verbatim>\<open>KeyError\<close>, which is what the caller gets in place of the original exception; no
  kill has been attempted and nothing is printed. The wrapper stays registered.
\<close>

theorem wrapper_closure_without_proxy:
  "register_dispatch_wrapper (ThreadedWrapper Maya) initial_state =
     (initial_state\<lparr>dispatchWrapper := Some (ThreadedWrapper Maya)\<rparr>, Inr ()) \<and>
   wrapper_closure plain_env (raise RuntimeError :: unit action)
       (initial_state\<lparr>dispatchWrapper := Some (ThreadedWrapper Maya)\<rparr>) =
     (initial_state\<lparr>dispatchWrapper := Some (ThreadedWrapper Maya)\<rparr>, Inl KeyError) \<and>
   kill_attempts (initial_state\<lparr>dispatchWrapper := Some (ThreadedWrapper Maya)\<rparr>) = 0"
  by (simp add: register_dispatch_wrapper_def getargspec_def wrapper_closure_def
        kill_attempts_def action_defs initial_state_def)

text \<open>With a proxy registered whose \<^verbatim>\<open>kill()\<close> returns, the handler does what the
  claim says: one kill, the traceback, the original exception, and no change to the
  registry.\<close>

lemma wrapper_closure_with_proxy:
  assumes "call st = (st', Inl e)" and "currentProxy st' = Some p" and "proxy_kill ev p = None"
  shows "wrapper_closure ev call st = (st'\<lparr>trace := trace st' @ [ProxyKill p, PrintExc e]\<rparr>, Inl e)"
  using assms by (simp add: wrapper_closure_def action_defs)

text \<open>A \<^verbatim>\<open>kill()\<close> that raises replaces the original exception as well.\<close>

lemma wrapper_closure_kill_raises:
  assumes "call st = (st', Inl e)" and "currentProxy st' = Some p" and "proxy_kill ev p = Some e'"
  shows "wrapper_closure ev call st = (st'\<lparr>trace := trace st' @ [ProxyKill p]\<rparr>, Inl e')"
  using assms by (simp add: wrapper_closure_def action_defs)

text \<open>The sibling path, the quit hook, passes over a missing server.\<close>

lemma on_application_quit_without_server:
  "currentServer st = None \<Longrightarrow> on_application_quit ev st = (st, Inr ())"
  by (simp add: on_application_quit_def action_defs)

subsection \<open>Install twice\<close>

lemma install_callbacks_result:
  "install_callbacks st =
     (st\<lparr>callbacks := (callbacks st)
          (''instanceToggled'' \<mapsto>
             (case callbacks st ''instanceToggled'' of
                None \<Rightarrow> [ToggleInstance] | Some hs \<Rightarrow> hs @ [ToggleInstance]),
           ''pluginToggled'' \<mapsto>
             (case callbacks st ''pluginToggled'' of
                None \<Rightarrow> [TogglePlugin] | Some hs \<Rightarrow> hs @ [TogglePlugin]))\<rparr>, Inr ())"
  by (simp add: install_callbacks_def register_callback_def action_defs)

lemma keeps_callbacks_install_host: "keeps callbacks (install_host ev)"
  by (rule keeps_install_host) simp_all

lemma keeps_installed_install_host: "keeps installed (install_host ev)"
  by (rule keeps_install_host) simp_all

lemma not_registered:
  "registrations name st = 0 \<Longrightarrow> callbacks st name = None \<or> callbacks st name = Some []"
  by (auto simp: registrations_def split: option.splits)

text \<open>\<^verbatim>\<open>install_callbacks\<close> on a registry that has neither name registered.\<close>

lemma install_callbacks_fresh:
  assumes "registrations ''instanceToggled'' st = 0" and "registrations ''pluginToggled'' st = 0"
  shows "callbacks (fst (install_callbacks st)) =
           (callbacks st)(''instanceToggled'' \<mapsto> [ToggleInstance],
                          ''pluginToggled'' \<mapsto> [TogglePlugin])"
  using not_registered [OF assms(1)] not_registered [OF assms(2)]
  by (auto simp: install_callbacks_result)

text \<open>What a call of \<^verbatim>\<open>install\<close> on a state without the installed flag does to the
  callback registry and the flag.\<close>

lemma install_fresh:
  assumes "\<not> installed st"
  shows "callbacks (fst (install ev st)) = callbacks (fst (install_callbacks st))"
    and "installed (fst (install ev st)) = (snd (install ev st) = Inr ())"
proof -
  obtain st1 where cbs: "install_callbacks st = (st1, Inr ())"
    by (simp add: install_callbacks_result)
  obtain st2 r where host: "install_host ev st1 = (st2, r)"
    by (cases "install_host ev st1")
  have cb: "callbacks st2 = callbacks st1"
    using keepsD2 [OF keeps_callbacks_install_host host] .
  have "installed st1 = installed st"
    using cbs by (auto simp: install_callbacks_result)
  then have fl: "installed st2 = installed st"
    using keepsD2 [OF keeps_installed_install_host host] by simp
  have run: "install ev st =
      (case r of Inl e \<Rightarrow> (st2, Inl e) | Inr _ \<Rightarrow> (st2\<lparr>installed := True\<rparr>, Inr ()))"
    using assms host cbs
    by (simp add: install_def action_defs split: sum.splits)
  show "callbacks (fst (install ev st)) = callbacks (fst (install_callbacks st))"
    using run cb cbs by (cases r) simp_all
  show "installed (fst (install ev st)) = (snd (install ev st) = Inr ())"
    using run fl assms by (cases r) simp_all
qed

text \<open>\<^verbatim>\<open>uninstall\<close> on a registry that holds the two registrations of
  \<^verbatim>\<open>install_callbacks\<close>, each the only one of its name.\<close>

lemma uninstall_after_install:
  assumes "callbacks st ''instanceToggled'' = Some [ToggleInstance]"
      and "callbacks st ''pluginToggled'' = Some [TogglePlugin]"
  shows "uninstall st =
           (st\<lparr>callbacks := (callbacks st)(''instanceToggled'' \<mapsto> [], ''pluginToggled'' \<mapsto> []),
               trace := trace st @ [Stdout ''Pyblish QML shutdown successful.\<newline>'']\<rparr>, Inr ())"
  using assms
  by (simp add: uninstall_def uninstall_callbacks_def deregister_callback_def action_defs)

lemma install_host_plain: "install_host plain_env st = (st, Inr ())"
  by (simp add: install_host_def host_order_def install_maya_def install_houdini_def
        install_nuke_def install_nukeassist_def install_hiero_def install_nukestudio_def
        import_module_def action_defs plain_env_def)

text \<open>A call of \<^verbatim>\<open>install\<close> on an installed bridge that holds the two registrations:
  what \<^verbatim>\<open>uninstall\<close> does after the message, what \<^verbatim>\<open>install_callbacks\<close> does
  after that, and the call as a whole.\<close>

lemma install_again:
  assumes "installed st"
      and "callbacks st ''instanceToggled'' = Some [ToggleInstance]"
      and "callbacks st ''pluginToggled'' = Some [TogglePlugin]"
  shows "uninstall (st\<lparr>trace := trace st @ [Stdout ''Already installed, uninstalling..\<newline>'']\<rparr>) =
           (st\<lparr>callbacks := (callbacks st)(''instanceToggled'' \<mapsto> [], ''pluginToggled'' \<mapsto> []),
               trace := trace st @ [Stdout ''Already installed, uninstalling..\<newline>'',
                                    Stdout ''Pyblish QML shutdown successful.\<newline>'']\<rparr>, Inr ())"
    and "install_callbacks
           (st\<lparr>callbacks := (callbacks st)(''instanceToggled'' \<mapsto> [], ''pluginToggled'' \<mapsto> []),
               trace := trace st @ [Stdout ''Already installed, uninstalling..\<newline>'',
                                    Stdout ''Pyblish QML shutdown successful.\<newline>'']\<rparr>) =
           (st\<lparr>trace := trace st @ [Stdout ''Already installed, uninstalling..\<newline>'',
                                    Stdout ''Pyblish QML shutdown successful.\<newline>'']\<rparr>, Inr ())"
    and "install ev st =
           (case install_host ev
                   (st\<lparr>trace := trace st @ [Stdout ''Already installed, uninstalling..\<newline>'',
                                            Stdout ''Pyblish QML shutdown successful.\<newline>'']\<rparr>) of
              (st2, Inl e) \<Rightarrow> (st2, Inl e)
            | (st2, Inr u) \<Rightarrow> (st2\<lparr>installed := True\<rparr>, Inr ()))"
proof -
  let ?msg = "st\<lparr>trace := trace st @ [Stdout ''Already installed, uninstalling..\<newline>'']\<rparr>"
  let ?un = "st\<lparr>callbacks := (callbacks st)(''instanceToggled'' \<mapsto> [], ''pluginToggled'' \<mapsto> []),
               trace := trace st @ [Stdout ''Already installed, uninstalling..\<newline>'',
                                    Stdout ''Pyblish QML shutdown successful.\<newline>'']\<rparr>"
  let ?re = "st\<lparr>trace := trace st @ [Stdout ''Already installed, uninstalling..\<newline>'',
                                    Stdout ''Pyblish QML shutdown successful.\<newline>'']\<rparr>"
  show un: "uninstall ?msg = (?un, Inr ())"
    using uninstall_after_install [of ?msg] assms(2,3) by simp
  have same: "((callbacks st)(''instanceToggled'' \<mapsto> [], ''pluginToggled'' \<mapsto> []))
                (''instanceToggled'' \<mapsto> [ToggleInstance], ''pluginToggled'' \<mapsto> [TogglePlugin]) =
              callbacks st"
    using assms(2,3) by (auto simp: fun_eq_iff)
  have same': "(callbacks st)
                (''instanceToggled'' \<mapsto> [ToggleInstance], ''pluginToggled'' \<mapsto> [TogglePlugin]) =
              callbacks st"
    using assms(2,3) by (auto simp: fun_eq_iff)
  have "fst (install_callbacks ?un) = ?re"
    by (simp add: install_callbacks_result same same')
  then show cbs: "install_callbacks ?un = (?re, Inr ())"
    by (simp add: install_callbacks_result)
  show "install ev st =
           (case install_host ev ?re of
              (st2, Inl e) \<Rightarrow> (st2, Inl e)
            | (st2, Inr u) \<Rightarrow> (st2\<lparr>installed := True\<rparr>, Inr ()))"
    using assms(1) un cbs
    by (simp add: install_def action_defs split: prod.splits sum.splits)
qed

lemma install_installed:
  assumes "installed st"
      and "callbacks st ''instanceToggled'' = Some [ToggleInstance]"
      and "callbacks st ''pluginToggled'' = Some [TogglePlugin]"
  shows "callbacks (fst (install ev st)) = callbacks st"
    and "installed (fst (install ev st))"
proof -
  let ?re = "st\<lparr>trace := trace st @ [Stdout ''Already installed, uninstalling..\<newline>'',
                                    Stdout ''Pyblish QML shutdown successful.\<newline>'']\<rparr>"
  obtain st2 r where host: "install_host ev ?re = (st2, r)"
    by (cases "install_host ev ?re")
  have cb: "callbacks st2 = callbacks st"
    using keepsD2 [OF keeps_callbacks_install_host host] by simp
  have fl: "installed st2"
    using keepsD2 [OF keeps_installed_install_host host] assms(1) by simp
  have run: "install ev st =
      (case r of Inl e \<Rightarrow> (st2, Inl e) | Inr _ \<Rightarrow> (st2\<lparr>installed := True\<rparr>, Inr ()))"
    using install_again(3) [OF assms, of ev] host by (simp split: sum.splits)
  show "callbacks (fst (install ev st)) = callbacks st"
    using run cb by (cases r) simp_all
  show "installed (fst (install ev st))"
    using run fl by (cases r) simp_all
qed

text \<open>
  C7, as the code has it. From a state in which the bridge is not installed and neither
  callback name is registered, let a first \<^verbatim>\<open>install()\<close> return. Then the installed
  flag is set, with each callback name registered once. A second \<^verbatim>\<open>install()\<close> writes
  its message and performs \<^verbatim>\<open>uninstall()\<close>, which returns and has deregistered both
  callbacks; it then registers them again and probes the hosts, and it returns or raises
  as that probing does. After the second call the flag is set and each callback name is
  registered exactly once.
\<close>

theorem install_twice_registers_once:
  assumes "\<not> installed st"
      and "registrations ''instanceToggled'' st = 0"
      and "registrations ''pluginToggled'' st = 0"
      and "install ev1 st = (st1, Inr ())"
  shows "installed st1 \<and>
         registrations ''instanceToggled'' st1 = 1 \<and>
         registrations ''pluginToggled'' st1 = 1 \<and>
         uninstall (st1\<lparr>trace := trace st1 @ [Stdout ''Already installed, uninstalling..\<newline>'']\<rparr>) =
           (st1\<lparr>callbacks := (callbacks st1)(''instanceToggled'' \<mapsto> [], ''pluginToggled'' \<mapsto> []),
                trace := trace st1 @ [Stdout ''Already installed, uninstalling..\<newline>'',
                                      Stdout ''Pyblish QML shutdown successful.\<newline>'']\<rparr>, Inr ()) \<and>
         install_callbacks
           (st1\<lparr>callbacks := (callbacks st1)(''instanceToggled'' \<mapsto> [], ''pluginToggled'' \<mapsto> []),
                trace := trace st1 @ [Stdout ''Already installed, uninstalling..\<newline>'',
                                      Stdout ''Pyblish QML shutdown successful.\<newline>'']\<rparr>) =
           (st1\<lparr>trace := trace st1 @ [Stdout ''Already installed, uninstalling..\<newline>'',
                                      Stdout ''Pyblish QML shutdown successful.\<newline>'']\<rparr>, Inr ()) \<and>
         install ev2 st1 =
           (case install_host ev2
                   (st1\<lparr>trace := trace st1 @ [Stdout ''Already installed, uninstalling..\<newline>'',
                                              Stdout ''Pyblish QML shutdown successful.\<newline>'']\<rparr>) of
              (st2, Inl e) \<Rightarrow> (st2, Inl e)
            | (st2, Inr u) \<Rightarrow> (st2\<lparr>installed := True\<rparr>, Inr ())) \<and>
         installed (fst (install ev2 st1)) \<and>
         registrations ''instanceToggled'' (fst (install ev2 st1)) = 1 \<and>
         registrations ''pluginToggled'' (fst (install ev2 st1)) = 1"
proof -
  have cb1: "callbacks st1 =
      (callbacks st)(''instanceToggled'' \<mapsto> [ToggleInstance], ''pluginToggled'' \<mapsto> [TogglePlugin])"
    using install_fresh(1) [OF assms(1), of ev1] assms(4)
      install_callbacks_fresh [OF assms(2,3)] by simp
  have fl1: "installed st1"
    using install_fresh(2) [OF assms(1), of ev1] assms(4) by simp
  have i1: "callbacks st1 ''instanceToggled'' = Some [ToggleInstance]"
    and p1: "callbacks st1 ''pluginToggled'' = Some [TogglePlugin]"
    by (simp_all add: cb1)
  have cb2: "callbacks (fst (install ev2 st1)) = callbacks st1"
    using install_installed(1) [OF fl1 i1 p1] .
  have fl2: "installed (fst (install ev2 st1))"
    using install_installed(2) [OF fl1 i1 p1] .
  have r1: "registrations ''instanceToggled'' st1 = 1 \<and> registrations ''pluginToggled'' st1 = 1"
    by (simp add: registrations_def i1 p1)
  have r2: "registrations ''instanceToggled'' (fst (install ev2 st1)) = 1 \<and>
            registrations ''pluginToggled'' (fst (install ev2 st1)) = 1"
    by (simp add: registrations_def cb2 i1 p1)
  note again = install_again [OF fl1 i1 p1]
  show ?thesis
    by (intro conjI fl1 fl2 r1 [THEN conjunct1] r1 [THEN conjunct2]
          r2 [THEN conjunct1] r2 [THEN conjunct2] again(1) again(2) again(3))
qed

lemma install_plain:
  "install plain_env initial_state =
     (initial_state\<lparr>installed := True,
        callbacks := [''instanceToggled'' \<mapsto> [ToggleInstance], ''pluginToggled'' \<mapsto> [TogglePlugin]]\<rparr>,
      Inr ())"
  by (simp add: install_def install_callbacks_def register_callback_def install_host_def
        host_order_def install_maya_def install_houdini_def install_nuke_def
        install_nukeassist_def install_hiero_def install_nukestudio_def import_module_def
        action_defs plain_env_def initial_state_def)

theorem install_twice_registers_once_witness:
  "\<not> installed initial_state \<and>
   registrations ''instanceToggled'' initial_state = 0 \<and>
   registrations ''pluginToggled'' initial_state = 0 \<and>
   snd (install plain_env initial_state) = Inr () \<and>
   installed (fst (install plain_env initial_state)) \<and>
   snd (uninstall ((fst (install plain_env initial_state))
          \<lparr>trace := trace (fst (install plain_env initial_state)) @
                      [Stdout ''Already installed, uninstalling..\<newline>'']\<rparr>)) = Inr () \<and>
   snd (install plain_env (fst (install plain_env initial_state))) = Inr () \<and>
   registrations ''instanceToggled''
     (fst (install plain_env (fst (install plain_env initial_state)))) = 1 \<and>
   registrations ''pluginToggled''
     (fst (install plain_env (fst (install plain_env initial_state)))) = 1"
proof -
  have a: "\<not> installed initial_state"
    and b: "registrations ''instanceToggled'' initial_state = 0"
    and c: "registrations ''pluginToggled'' initial_state = 0"
    by (simp_all add: initial_state_def registrations_def)
  have d: "install plain_env initial_state = (fst (install plain_env initial_state), Inr ())"
    by (simp add: install_plain)
  note inst = install_twice_registers_once [OF a b c d, of plain_env]
  have e1: "installed (fst (install plain_env initial_state))"
    using inst by (rule conjunct1)
  note r1 = inst [THEN conjunct2, THEN conjunct2, THEN conjunct2]
  have g: "snd (uninstall ((fst (install plain_env initial_state))
          \<lparr>trace := trace (fst (install plain_env initial_state)) @
                      [Stdout ''Already installed, uninstalling..\<newline>'']\<rparr>)) = Inr ()"
    using r1 [THEN conjunct1] by (simp only: snd_conv)
  note r2 = r1 [THEN conjunct2, THEN conjunct2]
  have h: "snd (install plain_env (fst (install plain_env initial_state))) = Inr ()"
    using r2 [THEN conjunct1]
    by (simp only: install_host_plain prod.case sum.case snd_conv)
  note r3 = r2 [THEN conjunct2, THEN conjunct2]
  have f: "snd (install plain_env initial_state) = Inr ()"
    by (simp only: install_plain snd_conv)
  show ?thesis
    by (intro conjI a b c f e1 g h r3 [THEN conjunct1] r3 [THEN conjunct2])
qed

text \<open>C7 as stated fails: under Nuke in terminal mode \<^verbatim>\<open>install()\<close> raises
  \<^verbatim>\<open>AttributeError\<close> in the host probing, after the callbacks are registered and
  before the installed flag is set. A second \<^verbatim>\<open>install()\<close> then finds no flag, does
  not uninstall and registers the callbacks again: two successive calls leave each
  callback name registered twice.\<close>

theorem install_twice_counterexample:
  "snd (install nuke_terminal_env initial_state) = Inl AttributeError \<and>
   snd (install nuke_terminal_env (fst (install nuke_terminal_env initial_state))) =
     Inl AttributeError \<and>
   registrations ''instanceToggled''
     (run_calls [(Install, nuke_terminal_env), (Install, nuke_terminal_env)] initial_state) = 2 \<and>
   registrations ''pluginToggled''
     (run_calls [(Install, nuke_terminal_env), (Install, nuke_terminal_env)] initial_state) = 2"
  by (simp add: install_def install_callbacks_def register_callback_def install_host_def
        host_order_def install_maya_def install_houdini_def install_nuke_def import_module_def
        register_dispatch_wrapper_def getargspec_def connect_quit_hook_def registrations_def
        action_defs nuke_terminal_env_def plain_env_def initial_state_def)

subsection \<open>What install and show leave alone\<close>

lemma keeps_register_callback:
  "(\<And>st v. f (st\<lparr>callbacks := v\<rparr>) = f st) \<Longrightarrow> keeps f (register_callback n h)"
  by (simp add: register_callback_def keeps_modify)

lemma keeps_deregister_callback:
  "(\<And>st v. f (st\<lparr>callbacks := v\<rparr>) = f st) \<Longrightarrow> keeps f (deregister_callback n h)"
  by (simp add: deregister_callback_def keeps_bind keeps_lookup keeps_modify keeps_raise)

lemma keeps_uninstall:
  assumes t: "\<And>st v. f (st\<lparr>trace := v\<rparr>) = f st"
      and c: "\<And>st v. f (st\<lparr>callbacks := v\<rparr>) = f st"
  shows "keeps f uninstall"
  by (simp add: uninstall_def uninstall_callbacks_def stdout_write_def keeps_seq keeps_ret
        keeps_emit keeps_deregister_callback t c)

text \<open>\<^verbatim>\<open>install\<close> changes nothing but the trace, the callbacks, what the installers
  change, and the installed flag.\<close>

lemma keeps_install:
  assumes t: "\<And>st v. f (st\<lparr>trace := v\<rparr>) = f st"
      and c: "\<And>st v. f (st\<lparr>callbacks := v\<rparr>) = f st"
      and d: "\<And>st v. f (st\<lparr>dispatchWrapper := v\<rparr>) = f st"
      and p: "\<And>st v. f (st\<lparr>vesselParent := v\<rparr>) = f st"
      and e: "\<And>st v. f (st\<lparr>environ := v\<rparr>) = f st"
      and s: "\<And>st v. f (st\<lparr>settings := v\<rparr>) = f st"
      and i: "\<And>st v. f (st\<lparr>installed := v\<rparr>) = f st"
  shows "keeps f (install ev)"
proof -
  have un: "keeps f uninstall"
    by (rule keeps_uninstall) (rule t c)+
  have cb: "keeps f install_callbacks"
    by (simp add: install_callbacks_def keeps_seq keeps_ret keeps_register_callback c)
  have ho: "keeps f (install_host ev)"
    by (rule keeps_install_host) (rule t d p e s)+
  show ?thesis
    by (simp add: install_def stdout_write_def keeps_seq keeps_ret keeps_bind keeps_gets
          keeps_emit keeps_modify un cb ho t i)
qed

lemma keeps_auto_install:
  assumes "\<And>st v. f (st\<lparr>trace := v\<rparr>) = f st"
      and "\<And>st v. f (st\<lparr>callbacks := v\<rparr>) = f st"
      and "\<And>st v. f (st\<lparr>dispatchWrapper := v\<rparr>) = f st"
      and "\<And>st v. f (st\<lparr>vesselParent := v\<rparr>) = f st"
      and "\<And>st v. f (st\<lparr>environ := v\<rparr>) = f st"
      and "\<And>st v. f (st\<lparr>settings := v\<rparr>) = f st"
      and "\<And>st v. f (st\<lparr>installed := v\<rparr>) = f st"
  shows "keeps f (auto_install ev)"
  by (simp add: auto_install_def keeps_bind keeps_gets keeps_ret keeps_install [OF assms])

text \<open>The start of a new session changes nothing but the trace, the callbacks, the
  heap of servers, the identity counter and the two registry entries.\<close>

lemma keeps_show_new:
  assumes t: "\<And>st v. f (st\<lparr>trace := v\<rparr>) = f st"
      and c: "\<And>st v. f (st\<lparr>callbacks := v\<rparr>) = f st"
      and h: "\<And>st v w. f (st\<lparr>servers := v, fresh := w\<rparr>) = f st"
      and n: "\<And>st v. f (st\<lparr>fresh := v\<rparr>) = f st"
      and cs: "\<And>st v. f (st\<lparr>currentServer := v\<rparr>) = f st"
      and cp: "\<And>st v. f (st\<lparr>currentProxy := v\<rparr>) = f st"
  shows "keeps f (show_new ta m ev)"
proof -
  have ext: "keeps f (external x out)" for x out
    by (rule keeps_external) (rule t)
  have em: "keeps f (emit x)" for x
    by (rule keeps_emit) (rule t)
  have sp: "keeps f (splash_setup ev)"
    by (simp add: splash_setup_def keeps_bind keeps_gets keeps_seq keeps_ret keeps_modify
          keeps_register_callback em n c)
  have co: "keeps f (construct ta m ev)"
    by (simp add: construct_def keeps_bind keeps_gets keeps_seq keeps_ret keeps_modify ext h)
  have os: "keeps f (on_shown k ev)" for k
    by (cases k)
       (simp_all add: on_shown_def keeps_seq keeps_ret keeps_try_except
          keeps_deregister_callback ext c)
  have ss: "keeps f (start_session r ev)" for r
    by (simp add: start_session_def Let_def stdout_write_def keeps_seq keeps_ret keeps_bind
          keeps_gets keeps_modify ext em cs cp)
  show ?thesis
    unfolding show_new_def
    by (intro keeps_bind keeps_try_except keeps_seq keeps_ret sp co)
       (simp_all add: keeps_seq keeps_ret em os ss split: option.split)
qed

lemma keeps_show_delegate:
  "(\<And>st v. f (st\<lparr>trace := v\<rparr>) = f st) \<Longrightarrow> keeps f (show_delegate r ev)"
  by (simp add: show_delegate_def keeps_bind keeps_lookup keeps_gets keeps_seq keeps_ret
        keeps_external)

lemma keeps_show_existing:
  assumes t: "\<And>st v. f (st\<lparr>trace := v\<rparr>) = f st"
      and h: "\<And>st v. f (st\<lparr>servers := v\<rparr>) = f st"
      and cs: "\<And>st v. f (st\<lparr>currentServer := v\<rparr>) = f st"
  shows "keeps f (show_existing r m ev)"
  by (simp add: show_existing_def set_modal_def pop_currentServer_def keeps_seq keeps_ret
        keeps_bind keeps_lookup keeps_try_except keeps_modify keeps_show_delegate t h cs)

lemma keeps_show_body:
  assumes t: "\<And>st v. f (st\<lparr>trace := v\<rparr>) = f st"
      and c: "\<And>st v. f (st\<lparr>callbacks := v\<rparr>) = f st"
      and h: "\<And>st v. f (st\<lparr>servers := v\<rparr>) = f st"
      and n: "\<And>st v. f (st\<lparr>fresh := v\<rparr>) = f st"
      and cs: "\<And>st v. f (st\<lparr>currentServer := v\<rparr>) = f st"
      and cp: "\<And>st v. f (st\<lparr>currentProxy := v\<rparr>) = f st"
  shows "keeps f (show_body ta m ev)"
proof -
  have hn: "f (st\<lparr>servers := v, fresh := w\<rparr>) = f st" for st v w
    by (simp add: n h)
  have new: "keeps f (show_new ta m ev)"
    by (rule keeps_show_new) (rule t c hn n cs cp)+
  have old: "keeps f (show_existing r m ev)" for r
    by (rule keeps_show_existing) (rule t h cs)+
  show ?thesis
    unfolding show_body_def
    by (intro keeps_bind keeps_gets)
       (simp_all add: keeps_ret new old split: option.split)
qed

lemma requested_modal_pure:
  "\<exists>m. requested_modal ma st = (st, Inr m)"
  by (cases ma) (simp_all add: requested_modal_def action_defs)

lemma auto_install_unfold:
  "auto_install ev st = (if installed st then (st, Inr ()) else install ev st)"
  by (simp add: auto_install_def action_defs)

subsection \<open>Show installs first\<close>

lemma show_qml_unfold:
  assumes "requested_modal ma st = (st, Inr m)"
  shows "show_qml ta ma ev st =
           (case auto_install ev st of
              (st1, Inl e) \<Rightarrow> (st1, Inl e)
            | (st1, Inr _) \<Rightarrow> show_body ta m ev st1)"
  using assms by (simp add: show_qml_def bind_def seq_def)

lemma keeps_installed_show_body: "keeps installed (show_body ta m ev)"
  by (rule keeps_show_body) simp_all

text \<open>
  C10, as the code has it. \<^verbatim>\<open>show()\<close> computes the modality and then, when the
  installed flag is not set, runs \<^verbatim>\<open>install()\<close> before it looks at the registry; if
  that \<^verbatim>\<open>install()\<close> raises, \<^verbatim>\<open>show()\<close> raises the same exception at once. After a
  call of \<^verbatim>\<open>show()\<close> the installed flag is set exactly when it was set before or the
  automatic \<^verbatim>\<open>install()\<close> returned.
\<close>

theorem show_installs_first:
  "(\<exists>m. requested_modal ma st = (st, Inr m) \<and>
        show_qml ta ma ev st =
          (case (if installed st then (st, Inr ()) else install ev st) of
             (st1, Inl e) \<Rightarrow> (st1, Inl e)
           | (st1, Inr _) \<Rightarrow> show_body ta m ev st1)) \<and>
   installed (fst (show_qml ta ma ev st)) = (installed st \<or> snd (install ev st) = Inr ())"
proof -
  obtain m where m: "requested_modal ma st = (st, Inr m)"
    using requested_modal_pure by blast
  have shape: "show_qml ta ma ev st =
          (case (if installed st then (st, Inr ()) else install ev st) of
             (st1, Inl e) \<Rightarrow> (st1, Inl e)
           | (st1, Inr _) \<Rightarrow> show_body ta m ev st1)"
    using show_qml_unfold [OF m] by (simp add: auto_install_unfold)
  have flag: "installed (fst (show_qml ta ma ev st)) = (installed st \<or> snd (install ev st) = Inr ())"
  proof (cases "installed st")
    case True
    with shape have "show_qml ta ma ev st = show_body ta m ev st" by simp
    with True keepsD [OF keeps_installed_show_body, of ta m ev st] show ?thesis by simp
  next
    case False
    obtain st1 r where run: "install ev st = (st1, r)"
      by (cases "install ev st")
    have fl: "installed st1 = (r = Inr ())"
      using install_fresh(2) [OF False, of ev] run by simp
    show ?thesis
    proof (cases r)
      case (Inl e)
      with False run shape fl show ?thesis by simp
    next
      case (Inr u)
      with False run shape have "show_qml ta ma ev st = show_body ta m ev st1" by simp
      with False run Inr fl keepsD [OF keeps_installed_show_body, of ta m ev st1]
      show ?thesis by simp
    qed
  qed
  from m shape flag show ?thesis by blast
qed

lemma install_nuke_terminal:
  "install nuke_terminal_env initial_state =
     (initial_state\<lparr>callbacks := [''instanceToggled'' \<mapsto> [ToggleInstance], ''pluginToggled'' \<mapsto> [TogglePlugin]],
        dispatchWrapper := Some (ThreadedWrapper Nuke),
        trace := [Stdout ''Setting up Pyblish QML in Nuke\<newline>'']\<rparr>,
      Inl AttributeError)"
  by (simp add: install_def install_callbacks_def register_callback_def install_host_def
        host_order_def install_maya_def install_houdini_def install_nuke_def import_module_def
        register_dispatch_wrapper_def getargspec_def connect_quit_hook_def
        action_defs nuke_terminal_env_def plain_env_def initial_state_def)

theorem show_installs_first_witness:
  "\<not> installed initial_state \<and>
   snd (install plain_env initial_state) = Inr () \<and>
   installed (fst (show_qml [] None plain_env initial_state)) \<and>
   snd (install nuke_terminal_env initial_state) = Inl AttributeError \<and>
   snd (show_qml [] (Some True) nuke_terminal_env initial_state) = Inl AttributeError"
proof -
  have a: "\<not> installed initial_state"
    by (simp add: initial_state_def)
  have b: "snd (install plain_env initial_state) = Inr ()"
    by (simp add: install_plain)
  have c: "installed (fst (show_qml [] None plain_env initial_state))"
    using show_installs_first [of None initial_state "[]" plain_env] b by simp
  have d: "snd (install nuke_terminal_env initial_state) = Inl AttributeError"
    by (simp add: install_nuke_terminal)
  have e: "snd (show_qml [] (Some True) nuke_terminal_env initial_state) = Inl AttributeError"
    using show_installs_first [of "Some True" initial_state "[]" nuke_terminal_env] a
    by (auto simp: install_nuke_terminal)
  from a b c d e show ?thesis by blast
qed

text \<open>C10 as stated fails: under Nuke in terminal mode the automatic install raises
  \<^verbatim>\<open>AttributeError\<close> (no application object to connect the quit hook to), and after
  the call of \<^verbatim>\<open>show()\<close> the installed flag is not set.\<close>

theorem show_installed_flag_counterexample:
  "snd (show_qml [] None nuke_terminal_env initial_state) = Inl AttributeError \<and>
   \<not> installed (fst (show_qml [] None nuke_terminal_env initial_state))"
  by (simp add: show_qml_def requested_modal_def auto_install_def install_nuke_terminal
        action_defs)
     (simp add: initial_state_def)

subsection \<open>Show with a failing construction\<close>

lemma show_new_construction_fails_headless:
  assumes "construction_failure ev = Some e" and "is_headless ev"
  shows "show_new ta m ev st =
           (st\<lparr>trace := trace st @ construction_events ev (fresh st) @ [PrintExc e]\<rparr>, Inr None)"
  using assms
  by (auto simp: show_new_def splash_setup_def construct_def on_shown_def
        construction_failure_def construction_events_def action_defs split: option.splits)

lemma show_new_construction_fails_gui:
  assumes "construction_failure ev = Some e" and "\<not> is_headless ev"
  shows "show_new ta m ev st =
           (st\<lparr>fresh := Suc (fresh st),
               callbacks := (callbacks st)(''pyblishQmlShown'' \<mapsto>
                              remove1 (OnShown (fresh st))
                                (case callbacks st ''pyblishQmlShown'' of
                                   None \<Rightarrow> [OnShown (fresh st)]
                                 | Some hs \<Rightarrow> hs @ [OnShown (fresh st)])),
               trace := trace st @ [SplashShow (fresh st)] @
                          construction_events ev (Suc (fresh st)) @
                          [PrintExc e, SplashClose (fresh st)]\<rparr>, Inr None)"
proof -
  have member: "OnShown k \<in> set (case r of None \<Rightarrow> [OnShown k] | Some hs \<Rightarrow> hs @ [OnShown k])"
    for k r
    by (cases r) simp_all
  show ?thesis
  proof (cases "service_init ev")
    case None
    with assms(1) have "server_init ev = Some e"
      by (simp add: construction_failure_def)
    with None assms(2) member show ?thesis
      by (simp add: show_new_def splash_setup_def construct_def on_shown_def
            register_callback_def deregister_callback_def construction_events_def action_defs)
  next
    case (Some e')
    with assms(1) have "e' = e"
      by (simp add: construction_failure_def)
    with Some assms(2) member show ?thesis
      by (simp add: show_new_def splash_setup_def construct_def on_shown_def
            register_callback_def deregister_callback_def construction_events_def action_defs)
  qed
qed

lemma registrations_remove1_append:
  "length (remove1 x (case r of None \<Rightarrow> [x] | Some hs \<Rightarrow> hs @ [x])) =
     (case r of None \<Rightarrow> 0 | Some hs \<Rightarrow> length hs)"
  by (cases r) (simp_all add: length_remove1)

lemma keeps_registry_auto_install:
  "keeps currentServer (auto_install ev)" "keeps currentProxy (auto_install ev)"
  "keeps servers (auto_install ev)" "keeps fresh (auto_install ev)"
  by (rule keeps_auto_install; simp)+

text \<open>
  C4, as the code has it. Let \<^verbatim>\<open>show()\<close> be called with no registered server, let the automatic install
  (if any) return, and let the construction of the service or the server fail with \<open>e\<close>.
  Then \<^verbatim>\<open>show()\<close> returns (the value of \<^verbatim>\<open>on_shown()\<close>, \<^verbatim>\<open>None\<close>) without raising;
  the failure is printed after the attempt; outside headless mode \<^verbatim>\<open>on_shown\<close> closes
  the splash screen at once and its registration is removed again, in headless mode it
  is the empty function; and nothing is registered: there is no server entry, and the
  proxy entry and the heap of servers are as before the call.
\<close>

theorem show_construction_failure:
  assumes "auto_install ev st = (st1, Inr ())"
      and "currentServer st = None"
      and "construction_failure ev = Some e"
  shows "snd (show_qml ta ma ev st) = Inr None \<and>
         currentServer (fst (show_qml ta ma ev st)) = None \<and>
         currentProxy (fst (show_qml ta ma ev st)) = currentProxy st \<and>
         servers (fst (show_qml ta ma ev st)) = servers st \<and>
         trace (fst (show_qml ta ma ev st)) =
           trace st1 @
           (if is_headless ev
            then construction_events ev (fresh st1) @ [PrintExc e]
            else [SplashShow (fresh st1)] @ construction_events ev (Suc (fresh st1)) @
                 [PrintExc e, SplashClose (fresh st1)]) \<and>
         registrations ''pyblishQmlShown'' (fst (show_qml ta ma ev st)) =
           registrations ''pyblishQmlShown'' st1"
proof -
  obtain m where m: "requested_modal ma st = (st, Inr m)"
    using requested_modal_pure by blast
  have cs1: "currentServer st1 = None"
    using keepsD2 [OF keeps_registry_auto_install(1) assms(1)] assms(2) by simp
  have cp1: "currentProxy st1 = currentProxy st"
    using keepsD2 [OF keeps_registry_auto_install(2) assms(1)] .
  have sv1: "servers st1 = servers st"
    using keepsD2 [OF keeps_registry_auto_install(3) assms(1)] .
  have "show_qml ta ma ev st = show_body ta m ev st1"
    using show_qml_unfold [OF m] assms(1) by simp
  also have "\<dots> = show_new ta m ev st1"
    using cs1 by (simp add: show_body_def action_defs)
  finally have run: "show_qml ta ma ev st = show_new ta m ev st1" .
  show ?thesis
  proof (cases "is_headless ev")
    case True
    show ?thesis
      unfolding run show_new_construction_fails_headless [OF assms(3) True]
      using True cs1 cp1 sv1 by (simp add: registrations_def)
  next
    case False
    show ?thesis
      unfolding run show_new_construction_fails_gui [OF assms(3) False]
      using False cs1 cp1 sv1 by (simp add: registrations_def registrations_remove1_append)
  qed
qed

lemma install_maya_and_houdini:
  "snd (install (maya_and_houdini_env\<lparr>server_init := x\<rparr>) initial_state) = Inr ()"
  by (simp add: install_def install_callbacks_def register_callback_def install_host_def
        host_order_def install_maya_def import_module_def register_dispatch_wrapper_def
        getargspec_def connect_quit_hook_def maya_window_def set_labels_def is_headless_def
        action_defs maya_and_houdini_env_def plain_env_def initial_state_def)

theorem show_construction_failure_witness:
  "snd (auto_install spawn_failure_env initial_state) = Inr () \<and>
   currentServer initial_state = None \<and>
   currentProxy initial_state = None \<and>
   construction_failure spawn_failure_env = Some OSError \<and>
   \<not> is_headless spawn_failure_env \<and>
   snd (show_qml [] None spawn_failure_env initial_state) = Inr None \<and>
   currentServer (fst (show_qml [] None spawn_failure_env initial_state)) = None \<and>
   currentProxy (fst (show_qml [] None spawn_failure_env initial_state)) = None"
proof -
  have a: "auto_install spawn_failure_env initial_state =
             (fst (auto_install spawn_failure_env initial_state), Inr ())"
    using install_maya_and_houdini [of "Some OSError"]
    by (simp add: auto_install_unfold spawn_failure_env_def initial_state_def prod_eq_iff)
  have b: "currentServer initial_state = None"
    and e: "currentProxy initial_state = None"
    by (simp_all add: initial_state_def)
  have c: "construction_failure spawn_failure_env = Some OSError"
    by (simp add: construction_failure_def spawn_failure_env_def maya_and_houdini_env_def
          plain_env_def)
  have d: "\<not> is_headless spawn_failure_env"
    by (simp add: is_headless_def spawn_failure_env_def maya_and_houdini_env_def)
  have f: "snd (show_qml [] None spawn_failure_env initial_state) = Inr None \<and>
     currentServer (fst (show_qml [] None spawn_failure_env initial_state)) = None \<and>
     currentProxy (fst (show_qml [] None spawn_failure_env initial_state)) = None"
    using show_construction_failure [OF a b c, of "[]" None] e by simp
  have g: "snd (auto_install spawn_failure_env initial_state) = Inr ()"
    using a by (metis snd_conv)
  from b c d e f g show ?thesis by blast
qed

subsection \<open>Show with a healthy server\<close>

lemma show_existing_healthy:
  assumes "currentProxy st = Some p" and "proxy_update ev p = None" and "proxy_show ev p = None"
  shows "show_existing r m ev st =
           (st\<lparr>servers := (servers st)(r := map_option (\<lambda>s. s\<lparr>modal := m\<rparr>) (servers st r)),
               trace := trace st @ [ProxyUpdate p r, ProxyShow p (settings st)]\<rparr>,
            Inr (Some r))"
  using assms
  by (simp add: show_existing_def set_modal_def show_delegate_def action_defs)

text \<open>
  C8. Let \<^verbatim>\<open>show()\<close> be called with server \<open>r\<close> and its proxy \<open>p\<close> registered, the
  commands through \<open>p\<close> not failing, and the automatic install (if any) returning into
  \<open>st1\<close>. Then the call returns the registered server \<open>r\<close>. It has set the modality of
  the object \<open>r\<close> to the value asked for, sent the proxy the update for \<open>r\<close> and then the
  show command with the current settings, and nothing else: both registry entries are as
  before, and no server object and no new identity has been made.
\<close>

theorem show_reuses_healthy_server:
  assumes "auto_install ev st = (st1, Inr ())"
      and "requested_modal ma st = (st, Inr m)"
      and "currentServer st = Some r"
      and "currentProxy st = Some p"
      and "servers st r = Some srv"
      and "proxy_update ev p = None"
      and "proxy_show ev p = None"
  shows "show_qml ta ma ev st =
           (st1\<lparr>servers := (servers st)(r \<mapsto> srv\<lparr>modal := m\<rparr>),
                trace := trace st1 @ [ProxyUpdate p r, ProxyShow p (settings st1)]\<rparr>,
            Inr (Some r)) \<and>
         currentServer (fst (show_qml ta ma ev st)) = Some r \<and>
         currentProxy (fst (show_qml ta ma ev st)) = Some p \<and>
         dom (servers (fst (show_qml ta ma ev st))) = dom (servers st) \<and>
         fresh (fst (show_qml ta ma ev st)) = fresh st"
proof -
  have cs1: "currentServer st1 = Some r"
    using keepsD2 [OF keeps_registry_auto_install(1) assms(1)] assms(3) by simp
  have cp1: "currentProxy st1 = Some p"
    using keepsD2 [OF keeps_registry_auto_install(2) assms(1)] assms(4) by simp
  have sv1: "servers st1 = servers st"
    using keepsD2 [OF keeps_registry_auto_install(3) assms(1)] .
  have fr1: "fresh st1 = fresh st"
    using keepsD2 [OF keeps_registry_auto_install(4) assms(1)] .
  have "show_qml ta ma ev st = show_body ta m ev st1"
    using show_qml_unfold [OF assms(2)] assms(1) by simp
  also have "\<dots> =
           (st1\<lparr>servers := (servers st)(r \<mapsto> srv\<lparr>modal := m\<rparr>),
                trace := trace st1 @ [ProxyUpdate p r, ProxyShow p (settings st1)]\<rparr>,
            Inr (Some r))"
    using cs1 sv1 assms(5) show_existing_healthy [OF cp1 assms(6,7), of r m]
    by (simp add: show_body_def action_defs)
  finally have run: "show_qml ta ma ev st =
           (st1\<lparr>servers := (servers st)(r \<mapsto> srv\<lparr>modal := m\<rparr>),
                trace := trace st1 @ [ProxyUpdate p r, ProxyShow p (settings st1)]\<rparr>,
            Inr (Some r))" .
  have "dom ((servers st)(r \<mapsto> srv\<lparr>modal := m\<rparr>)) = dom (servers st)"
    using assms(5) by auto
  with run cs1 cp1 fr1 show ?thesis by simp
qed

lemma show_plain:
  "show_qml [] None plain_env initial_state =
     (initial_state
        \<lparr>installed := True,
         currentServer := Some 0,
         currentProxy := Some (Proxy 0 True),
         callbacks := [''instanceToggled'' \<mapsto> [ToggleInstance], ''pluginToggled'' \<mapsto> [TogglePlugin]],
         servers := [0 \<mapsto> \<lparr>modal = False, targets = []\<rparr>],
         fresh := Suc 0,
         trace := [ServiceInit, ServerInit 0, ProxyInit (Proxy 0 True),
                   ProxyShow (Proxy 0 True) (settings initial_state),
                   Stdout ''Success. QML server available as pyblish_qml.api.current_server()\<newline>'',
                   Listen 0]\<rparr>,
      Inr (Some 0))"
proof -
  have m: "requested_modal None initial_state = (initial_state, Inr False)"
    by (simp add: requested_modal_def action_defs initial_state_def)
  show ?thesis
    unfolding show_qml_unfold [OF m] auto_install_unfold
    by (simp add: install_plain)
       (simp add: show_body_def show_new_def splash_setup_def construct_def start_session_def
          is_headless_def Let_def action_defs plain_env_def initial_state_def)
qed

lemma running_state_fields:
  "installed running_state"
  "currentServer running_state = Some 0"
  "currentProxy running_state = Some (Proxy 0 True)"
  "servers running_state 0 = Some \<lparr>modal = False, targets = []\<rparr>"
  "fresh running_state = Suc 0"
  "environ running_state = Map.empty"
  by (simp_all add: running_state_def show_plain) (simp_all add: initial_state_def)

theorem show_reuses_healthy_server_witness:
  "auto_install plain_env running_state = (running_state, Inr ()) \<and>
   requested_modal (Some True) running_state = (running_state, Inr True) \<and>
   currentServer running_state = Some 0 \<and>
   currentProxy running_state = Some (Proxy 0 True) \<and>
   servers running_state 0 = Some \<lparr>modal = False, targets = []\<rparr> \<and>
   proxy_update plain_env (Proxy 0 True) = None \<and>
   proxy_show plain_env (Proxy 0 True) = None \<and>
   snd (show_qml [] (Some True) plain_env running_state) = Inr (Some 0) \<and>
   servers (fst (show_qml [] (Some True) plain_env running_state)) 0 =
     Some \<lparr>modal = True, targets = []\<rparr> \<and>
   currentServer (fst (show_qml [] (Some True) plain_env running_state)) = Some 0 \<and>
   currentProxy (fst (show_qml [] (Some True) plain_env running_state)) = Some (Proxy 0 True) \<and>
   fresh (fst (show_qml [] (Some True) plain_env running_state)) = fresh running_state"
proof -
  have a: "auto_install plain_env running_state = (running_state, Inr ())"
    by (simp add: auto_install_unfold running_state_fields)
  have b: "requested_modal (Some True) running_state = (running_state, Inr True)"
    by (simp add: requested_modal_def action_defs)
  have c: "proxy_update plain_env (Proxy 0 True) = None"
    and d: "proxy_show plain_env (Proxy 0 True) = None"
    by (simp_all add: plain_env_def)
  note inst = show_reuses_healthy_server
               [OF a b running_state_fields(2) running_state_fields(3) running_state_fields(4) c d,
                of "[]"]
  have e: "snd (show_qml [] (Some True) plain_env running_state) = Inr (Some 0)"
    and f: "servers (fst (show_qml [] (Some True) plain_env running_state)) 0 =
              Some \<lparr>modal = True, targets = []\<rparr>"
    using inst by simp_all
  have g: "currentServer (fst (show_qml [] (Some True) plain_env running_state)) = Some 0"
    and h: "currentProxy (fst (show_qml [] (Some True) plain_env running_state)) = Some (Proxy 0 True)"
    and i: "fresh (fst (show_qml [] (Some True) plain_env running_state)) = fresh running_state"
    using inst by blast+
  from a b c d e f g h i running_state_fields(2,3,4) show ?thesis by blast
qed

subsection \<open>Recovery from a stale session\<close>

lemma publish_delegate_trace_only:
  "fst (publish_delegate r ev st) = st\<lparr>trace := trace (fst (publish_delegate r ev st))\<rparr>"
  by (simp add: publish_delegate_def action_defs split: option.splits)

lemma validate_delegate_trace_only:
  "fst (validate_delegate r ev st) = st\<lparr>trace := trace (fst (validate_delegate r ev st))\<rparr>"
  by (simp add: validate_delegate_def action_defs split: option.splits)

lemma keeps_currentServer_show_delegate: "keeps currentServer (show_delegate r ev)"
  by (rule keeps_show_delegate) simp

lemma keeps_publish_delegate:
  "(\<And>st v. f (st\<lparr>trace := v\<rparr>) = f st) \<Longrightarrow> keeps f (publish_delegate r ev)"
  by (simp add: publish_delegate_def keeps_bind keeps_lookup keeps_seq keeps_ret keeps_external)

lemma keeps_validate_delegate:
  "(\<And>st v. f (st\<lparr>trace := v\<rparr>) = f st) \<Longrightarrow> keeps f (validate_delegate r ev)"
  by (simp add: validate_delegate_def keeps_bind keeps_lookup keeps_seq keeps_ret keeps_external)

lemma keeps_currentServer_publish_delegate: "keeps currentServer (publish_delegate r ev)"
  by (rule keeps_publish_delegate) simp

lemma keeps_currentServer_validate_delegate: "keeps currentServer (validate_delegate r ev)"
  by (rule keeps_validate_delegate) simp

lemma publish_stale:
  assumes "currentServer st = Some r" and "publish_delegate r ev st = (st', Inl e)" and "stale e"
  shows "publish ev st = (st'\<lparr>currentServer := None\<rparr>, Inr ())"
proof -
  have "currentServer st' = Some r"
    using keepsD2 [OF keeps_currentServer_publish_delegate assms(2)] assms(1) by simp
  with assms show ?thesis
    by (simp add: publish_def pop_currentServer_def action_defs)
qed

lemma validate_stale:
  assumes "currentServer st = Some r" and "validate_delegate r ev st = (st', Inl e)" and "stale e"
  shows "validate ev st = (st'\<lparr>currentServer := None\<rparr>, Inr ())"
proof -
  have "currentServer st' = Some r"
    using keepsD2 [OF keeps_currentServer_validate_delegate assms(2)] assms(1) by simp
  with assms show ?thesis
    by (simp add: validate_def pop_currentServer_def action_defs)
qed

lemma show_stale:
  assumes "auto_install ev st = (st1, Inr ())"
      and "requested_modal ma st = (st, Inr m)"
      and "currentServer st = Some r"
      and "show_delegate r ev (fst (set_modal r m st1)) = (st2, Inl e)"
      and "stale e"
  shows "show_qml ta ma ev st = show_new ta m ev (st2\<lparr>currentServer := None\<rparr>)"
proof -
  have cs1: "currentServer st1 = Some r"
    using keepsD2 [OF keeps_registry_auto_install(1) assms(1)] assms(3) by simp
  have "currentServer (fst (set_modal r m st1)) = Some r"
    using cs1 by (simp add: set_modal_def action_defs)
  then have cs2: "currentServer st2 = Some r"
    using keepsD2 [OF keeps_currentServer_show_delegate assms(4)] by simp
  have old: "show_existing r m ev st1 = (st2\<lparr>currentServer := None\<rparr>, Inr None)"
    using assms(4,5) cs2
    by (simp add: show_existing_def pop_currentServer_def set_modal_def action_defs)
  have "show_qml ta ma ev st = show_body ta m ev st1"
    using show_qml_unfold [OF assms(2)] assms(1) by simp
  also have "\<dots> = show_new ta m ev (st2\<lparr>currentServer := None\<rparr>)"
    using cs1 old by (simp add: show_body_def bind_def gets_def)
  finally show ?thesis .
qed

text \<open>
  C3, as the code has it. For \<^verbatim>\<open>publish()\<close> and \<^verbatim>\<open>validate()\<close> with a server
  registered: if the delegation raises \<^verbatim>\<open>IOError\<close> or \<^verbatim>\<open>KeyError\<close>, the call returns
  without raising, the server entry is removed, and apart from that and the trace of the
  attempted commands the state is as before. For \<^verbatim>\<open>show()\<close>: the server entry is
  removed as well, but the call goes on and does what a \<^verbatim>\<open>show()\<close> without a
  registered server does, that is, it starts a new session.
\<close>

theorem stale_session_recovery:
  "(currentServer st = Some r \<and> publish_delegate r ev st = (st', Inl e) \<and> stale e \<longrightarrow>
      publish ev st = (st'\<lparr>currentServer := None\<rparr>, Inr ()) \<and>
      st' = st\<lparr>trace := trace st'\<rparr>) \<and>
   (currentServer st = Some r \<and> validate_delegate r ev st = (st', Inl e) \<and> stale e \<longrightarrow>
      validate ev st = (st'\<lparr>currentServer := None\<rparr>, Inr ()) \<and>
      st' = st\<lparr>trace := trace st'\<rparr>) \<and>
   (auto_install ev st = (st1, Inr ()) \<and> requested_modal ma st = (st, Inr m) \<and>
    currentServer st = Some r \<and>
    show_delegate r ev (fst (set_modal r m st1)) = (st2, Inl e) \<and> stale e \<longrightarrow>
      show_qml ta ma ev st = show_new ta m ev (st2\<lparr>currentServer := None\<rparr>))"
proof (intro conjI impI)
  assume "currentServer st = Some r \<and> publish_delegate r ev st = (st', Inl e) \<and> stale e"
  then show "publish ev st = (st'\<lparr>currentServer := None\<rparr>, Inr ())"
    by (simp add: publish_stale)
next
  assume "currentServer st = Some r \<and> publish_delegate r ev st = (st', Inl e) \<and> stale e"
  then show "st' = st\<lparr>trace := trace st'\<rparr>"
    using publish_delegate_trace_only [of r ev st] by simp
next
  assume "currentServer st = Some r \<and> validate_delegate r ev st = (st', Inl e) \<and> stale e"
  then show "validate ev st = (st'\<lparr>currentServer := None\<rparr>, Inr ())"
    by (simp add: validate_stale)
next
  assume "currentServer st = Some r \<and> validate_delegate r ev st = (st', Inl e) \<and> stale e"
  then show "st' = st\<lparr>trace := trace st'\<rparr>"
    using validate_delegate_trace_only [of r ev st] by simp
next
  assume "auto_install ev st = (st1, Inr ()) \<and> requested_modal ma st = (st, Inr m) \<and>
    currentServer st = Some r \<and>
    show_delegate r ev (fst (set_modal r m st1)) = (st2, Inl e) \<and> stale e"
  then show "show_qml ta ma ev st = show_new ta m ev (st2\<lparr>currentServer := None\<rparr>)"
    by (simp add: show_stale)
qed

lemma running_state_eq:
  "running_state =
     initial_state
        \<lparr>installed := True,
         currentServer := Some 0,
         currentProxy := Some (Proxy 0 True),
         callbacks := [''instanceToggled'' \<mapsto> [ToggleInstance], ''pluginToggled'' \<mapsto> [TogglePlugin]],
         servers := [0 \<mapsto> \<lparr>modal = False, targets = []\<rparr>],
         fresh := Suc 0,
         trace := [ServiceInit, ServerInit 0, ProxyInit (Proxy 0 True),
                   ProxyShow (Proxy 0 True) (settings initial_state),
                   Stdout ''Success. QML server available as pyblish_qml.api.current_server()\<newline>'',
                   Listen 0]\<rparr>"
  by (simp add: running_state_def show_plain)

lemma publish_delegate_vanished:
  "publish_delegate 0 vanished_env running_state =
     (running_state\<lparr>trace := trace running_state @ [ProxyUpdate (Proxy 0 True) 0]\<rparr>, Inl IOError)"
  by (simp add: publish_delegate_def action_defs running_state_fields vanished_env_def)

lemma validate_delegate_vanished:
  "validate_delegate 0 vanished_env running_state =
     (running_state\<lparr>trace := trace running_state @ [ProxyUpdate (Proxy 0 True) 0]\<rparr>, Inl IOError)"
  by (simp add: validate_delegate_def action_defs running_state_fields vanished_env_def)

lemma show_delegate_vanished:
  "show_delegate 0 vanished_env (fst (set_modal 0 False running_state)) =
     (running_state\<lparr>trace := trace running_state @ [ProxyUpdate (Proxy 0 True) 0]\<rparr>, Inl IOError)"
  by (simp add: show_delegate_def set_modal_def action_defs vanished_env_def
        running_state_eq initial_state_def)

lemma show_new_vanished:
  "snd (show_new [] False vanished_env
     (running_state\<lparr>trace := trace running_state @ [ProxyUpdate (Proxy 0 True) 0],
                    currentServer := None\<rparr>)) = Inr (Some 1) \<and>
   currentServer (fst (show_new [] False vanished_env
     (running_state\<lparr>trace := trace running_state @ [ProxyUpdate (Proxy 0 True) 0],
                    currentServer := None\<rparr>))) = Some 1"
  by (simp add: show_new_def splash_setup_def construct_def start_session_def
          is_headless_def Let_def action_defs vanished_env_def plain_env_def
          running_state_fields)

theorem stale_session_recovery_witness:
  "currentServer running_state = Some 0 \<and> stale IOError \<and>
   snd (publish_delegate 0 vanished_env running_state) = Inl IOError \<and>
   snd (publish vanished_env running_state) = Inr () \<and>
   currentServer (fst (publish vanished_env running_state)) = None \<and>
   snd (validate_delegate 0 vanished_env running_state) = Inl IOError \<and>
   snd (validate vanished_env running_state) = Inr () \<and>
   currentServer (fst (validate vanished_env running_state)) = None \<and>
   snd (show_delegate 0 vanished_env (fst (set_modal 0 False running_state))) = Inl IOError \<and>
   show_qml [] None vanished_env running_state =
     show_new [] False vanished_env
       (running_state\<lparr>trace := trace running_state @ [ProxyUpdate (Proxy 0 True) 0],
                      currentServer := None\<rparr>)"
proof -
  have st: "stale IOError"
    by (simp add: stale_def)
  have a: "auto_install vanished_env running_state = (running_state, Inr ())"
    by (simp add: auto_install_unfold running_state_fields)
  have m: "requested_modal None running_state = (running_state, Inr False)"
    by (simp add: requested_modal_def action_defs running_state_fields)
  note inst = stale_session_recovery
    [of running_state 0 vanished_env
        "running_state\<lparr>trace := trace running_state @ [ProxyUpdate (Proxy 0 True) 0]\<rparr>"
        IOError running_state None False
        "running_state\<lparr>trace := trace running_state @ [ProxyUpdate (Proxy 0 True) 0]\<rparr>" "[]"]
  have p: "publish vanished_env running_state =
     (running_state\<lparr>trace := trace running_state @ [ProxyUpdate (Proxy 0 True) 0],
                    currentServer := None\<rparr>, Inr ())"
    using inst st running_state_fields(2) publish_delegate_vanished by blast
  have v: "validate vanished_env running_state =
     (running_state\<lparr>trace := trace running_state @ [ProxyUpdate (Proxy 0 True) 0],
                    currentServer := None\<rparr>, Inr ())"
    using inst st running_state_fields(2) validate_delegate_vanished by blast
  have s: "show_qml [] None vanished_env running_state =
     show_new [] False vanished_env
       (running_state\<lparr>trace := trace running_state @ [ProxyUpdate (Proxy 0 True) 0],
                      currentServer := None\<rparr>)"
    using inst st running_state_fields(2) show_delegate_vanished a m by blast
  show ?thesis
    using st running_state_fields(2) s
    by (simp add: p v publish_delegate_vanished validate_delegate_vanished
          show_delegate_vanished)
qed

text \<open>C3 as stated fails for \<^verbatim>\<open>show()\<close>: with server 0 registered and its subprocess
  gone, the call does not end after removing the entry; it starts server 1, registers
  it and returns it.\<close>

theorem show_stale_counterexample:
  "currentServer running_state = Some 0 \<and>
   snd (show_delegate 0 vanished_env (fst (set_modal 0 False running_state))) = Inl IOError \<and>
   snd (show_qml [] None vanished_env running_state) = Inr (Some 1) \<and>
   currentServer (fst (show_qml [] None vanished_env running_state)) = Some 1"
proof -
  have a: "auto_install vanished_env running_state = (running_state, Inr ())"
    by (simp add: auto_install_unfold running_state_fields)
  have m: "requested_modal None running_state = (running_state, Inr False)"
    by (simp add: requested_modal_def action_defs running_state_fields)
  have st: "stale IOError"
    by (simp add: stale_def)
  have "show_qml [] None vanished_env running_state =
     show_new [] False vanished_env
       (running_state\<lparr>trace := trace running_state @ [ProxyUpdate (Proxy 0 True) 0],
                      currentServer := None\<rparr>)"
    using show_stale [OF a m running_state_fields(2) show_delegate_vanished st]
    by simp
  with show_new_vanished show_delegate_vanished running_state_fields(2)
  show ?thesis by simp
qed

subsection \<open>The two registry entries\<close>

lemma preservesD: "preserves I m \<Longrightarrow> I st \<Longrightarrow> I (fst (m st))"
  by (simp add: preserves_def)

lemma preserves_bind:
  "preserves I m \<Longrightarrow> (\<And>v. preserves I (g v)) \<Longrightarrow> preserves I (bind m g)"
  by (auto simp: preserves_def bind_def split: prod.splits sum.splits)

lemma preserves_ret: "preserves I (ret v)"
  by (simp add: preserves_def ret_def)

lemma preserves_gets: "preserves I (gets f)"
  by (simp add: preserves_def gets_def)

lemma keeps_preserves:
  "keeps currentServer m \<Longrightarrow> keeps currentProxy m \<Longrightarrow> preserves server_has_proxy m"
  by (simp add: keeps_def preserves_def server_has_proxy_def)

lemma preserves_pop_currentServer: "preserves server_has_proxy pop_currentServer"
  by (simp add: preserves_def server_has_proxy_def pop_currentServer_def action_defs
        split: option.splits)

lemma preserves_try_except:
  "preserves I m \<Longrightarrow> (\<And>e. preserves I (h e)) \<Longrightarrow> preserves I (try_except m c h)"
  by (auto simp: preserves_def try_except_def split: prod.splits sum.splits)

lemma preserves_publish: "preserves server_has_proxy (publish ev)"
proof -
  have del: "preserves server_has_proxy (publish_delegate r ev)" for r
    by (rule keeps_preserves; rule keeps_publish_delegate; simp)
  show ?thesis
    unfolding publish_def
    by (intro preserves_bind preserves_gets)
       (simp add: preserves_ret preserves_try_except del preserves_pop_currentServer
          split: option.split)
qed

lemma preserves_validate: "preserves server_has_proxy (validate ev)"
proof -
  have del: "preserves server_has_proxy (validate_delegate r ev)" for r
    by (rule keeps_preserves; rule keeps_validate_delegate; simp)
  show ?thesis
    unfolding validate_def
    by (intro preserves_bind preserves_gets)
       (simp add: preserves_ret preserves_try_except del preserves_pop_currentServer
          split: option.split)
qed

lemma preserves_install: "preserves server_has_proxy (install ev)"
  by (rule keeps_preserves; rule keeps_install; simp)

lemma preserves_auto_install: "preserves server_has_proxy (auto_install ev)"
  by (rule keeps_preserves) (rule keeps_registry_auto_install)+

lemma preserves_uninstall: "preserves server_has_proxy uninstall"
  by (rule keeps_preserves; rule keeps_uninstall; simp)

lemma preserves_show_existing: "preserves server_has_proxy (show_existing r m ev)"
proof -
  have k: "keeps currentProxy (show_existing r m ev)"
    by (rule keeps_show_existing) simp_all
  have modal_only: "preserves server_has_proxy (set_modal r m)"
    by (simp add: preserves_def server_has_proxy_def set_modal_def action_defs)
  have del: "preserves server_has_proxy (show_delegate r ev)"
    by (rule keeps_preserves; rule keeps_show_delegate; simp)
  show ?thesis
    unfolding show_existing_def seq_def
    by (intro preserves_bind preserves_try_except preserves_ret modal_only del
          preserves_pop_currentServer)
qed

text \<open>The two assignments of lines 156 and 157 come together: nothing that can raise
  stands between them.\<close>

lemma preserves_start_session: "preserves server_has_proxy (start_session r ev)"
  by (simp add: preserves_def server_has_proxy_def start_session_def Let_def action_defs
        split: option.splits)

lemma preserves_show_new: "preserves server_has_proxy (show_new ta m ev)"
proof -
  have sp: "preserves server_has_proxy (splash_setup ev)"
    by (rule keeps_preserves)
       (simp_all add: splash_setup_def keeps_bind keeps_gets keeps_seq keeps_ret keeps_modify
          keeps_register_callback keeps_emit)
  have co: "preserves server_has_proxy (construct ta m ev)"
    by (rule keeps_preserves)
       (simp_all add: construct_def keeps_bind keeps_gets keeps_seq keeps_ret keeps_modify
          keeps_external)
  have os: "preserves server_has_proxy (on_shown k ev)" for k
    by (rule keeps_preserves; cases k)
       (simp_all add: on_shown_def keeps_seq keeps_ret keeps_try_except
          keeps_deregister_callback keeps_external)
  have em: "preserves server_has_proxy (emit x)" for x
    by (rule keeps_preserves) (simp_all add: keeps_emit)
  show ?thesis
    unfolding show_new_def seq_def do_all.simps
    by (intro preserves_bind preserves_try_except preserves_ret sp co em os)
       (simp_all add: preserves_ret preserves_start_session split: option.split)
qed

lemma preserves_show_body: "preserves server_has_proxy (show_body ta m ev)"
  unfolding show_body_def
  by (intro preserves_bind preserves_gets)
     (simp_all add: preserves_ret preserves_show_existing preserves_show_new split: option.split)

lemma preserves_show_qml: "preserves server_has_proxy (show_qml ta ma ev)"
proof -
  have rm: "preserves server_has_proxy (requested_modal ma)"
    by (cases ma) (simp_all add: requested_modal_def preserves_bind preserves_gets preserves_ret)
  show ?thesis
    unfolding show_qml_def seq_def
    by (intro preserves_bind rm preserves_auto_install preserves_show_body)
qed

lemma server_has_proxy_alt:
  "server_has_proxy st = (currentServer st \<noteq> None \<longrightarrow> currentProxy st \<noteq> None)"
  by (auto simp: server_has_proxy_def)

lemma run_call_server_has_proxy:
  "server_has_proxy st \<Longrightarrow> server_has_proxy (run_call c ev st)"
  by (cases c)
     (simp_all add: preservesD preserves_install preserves_uninstall preserves_show_qml
        preserves_publish preserves_validate)

lemma run_calls_server_has_proxy:
  "server_has_proxy st \<Longrightarrow> server_has_proxy (run_calls cs st)"
proof (induction cs arbitrary: st)
  case Nil
  then show ?case by simp
next
  case (Cons c cs)
  obtain k ev where c: "c = (k, ev)"
    by (cases c)
  from Cons.prems have "server_has_proxy (run_call k ev st)"
    by (rule run_call_server_has_proxy)
  then show ?case
    using Cons.IH c by simp
qed

text \<open>
  C2, as the code has it. From process start, after every sequence of calls of
  \<^verbatim>\<open>install\<close>, \<^verbatim>\<open>uninstall\<close>, \<^verbatim>\<open>show\<close>, \<^verbatim>\<open>publish\<close> and \<^verbatim>\<open>validate\<close>, in
  whatever environments and whether they return or raise: if a server is registered, a
  proxy is registered. (The converse is what fails: the recovery from a stale session
  removes the server entry only.) The same holds from any state that has the property.
\<close>

theorem registered_server_has_proxy:
  "(currentServer (run_calls cs initial_state) \<noteq> None \<longrightarrow>
      currentProxy (run_calls cs initial_state) \<noteq> None) \<and>
   ((currentServer st \<noteq> None \<longrightarrow> currentProxy st \<noteq> None) \<longrightarrow>
    (currentServer (run_calls cs st) \<noteq> None \<longrightarrow> currentProxy (run_calls cs st) \<noteq> None))"
proof -
  have "server_has_proxy initial_state"
    by (simp add: server_has_proxy_def initial_state_def)
  then have a: "server_has_proxy (run_calls cs initial_state)"
    by (rule run_calls_server_has_proxy)
  have b: "server_has_proxy st \<Longrightarrow> server_has_proxy (run_calls cs st)"
    by (rule run_calls_server_has_proxy)
  from a b show ?thesis
    by (simp add: server_has_proxy_alt)
qed

lemma publish_vanished:
  "publish vanished_env running_state =
     (running_state\<lparr>trace := trace running_state @ [ProxyUpdate (Proxy 0 True) 0],
                    currentServer := None\<rparr>, Inr ())"
  using publish_stale [OF running_state_fields(2) publish_delegate_vanished]
  by (simp add: stale_def)

theorem registered_server_has_proxy_witness:
  "currentServer (run_calls [(Show [] None, plain_env)] initial_state) = Some 0 \<and>
   currentProxy (run_calls [(Show [] None, plain_env)] initial_state) = Some (Proxy 0 True)"
proof -
  have "currentServer (run_calls [(Show [] None, plain_env)] initial_state) = Some 0"
    using running_state_fields(2) by (simp add: running_state_def)
  moreover from this
  have "currentProxy (run_calls [(Show [] None, plain_env)] initial_state) \<noteq> None"
    using registered_server_has_proxy [of "[(Show [] None, plain_env)]" initial_state]
    by simp
  moreover have "currentProxy (run_calls [(Show [] None, plain_env)] initial_state) =
      Some (Proxy 0 True)"
    using running_state_fields(3) by (simp add: running_state_def)
  ultimately show ?thesis by simp
qed

text \<open>C2 as stated fails: a \<^verbatim>\<open>show()\<close> at process start, then a \<^verbatim>\<open>publish()\<close>
  after the subprocess has gone, leave the proxy entry without a server entry.\<close>

theorem registry_entries_counterexample:
  "currentServer (run_calls [(Show [] None, plain_env), (Publish, vanished_env)] initial_state)
     = None \<and>
   currentProxy (run_calls [(Show [] None, plain_env), (Publish, vanished_env)] initial_state)
     = Some (Proxy 0 True)"
  using running_state_fields(3)
  by (simp add: running_state_def [symmetric] publish_vanished)

subsection \<open>A registered server means an installed bridge\<close>

text \<open>Only \<^verbatim>\<open>show\<close> registers a server, after its install check, and nothing resets
  the installed flag: so in every state that the calls reach from process start, a
  registered server comes with the flag set, and the install check of \<^verbatim>\<open>show\<close> is
  passed over.\<close>

lemma publish_validate_none:
  "currentServer st = None \<Longrightarrow> publish ev st = (st, Inr ())"
  "currentServer st = None \<Longrightarrow> validate ev st = (st, Inr ())"
  by (simp_all add: publish_def validate_def action_defs)

lemma keeps_installed_preserves:
  assumes "keeps currentServer m" and "preserves installed m"
  shows "preserves (\<lambda>st. currentServer st = None \<or> installed st) m"
  using assms by (auto simp: keeps_def preserves_def)

lemma preserves_installed_install: "preserves installed (install ev)"
proof -
  have "installed (fst (install ev st))" if "installed st" for st
  proof -
    obtain st1 r where un: "seq (stdout_write ''Already installed, uninstalling..\<newline>'')
        (seq uninstall (ret ())) st = (st1, r)"
      by (cases "seq (stdout_write ''Already installed, uninstalling..\<newline>'')
        (seq uninstall (ret ())) st")
    have k1: "keeps installed (seq (stdout_write ''Already installed, uninstalling..\<newline>'')
        (seq uninstall (ret ())))"
      by (simp add: stdout_write_def keeps_seq keeps_ret keeps_emit keeps_uninstall)
    have i1: "installed st1"
      using keepsD2 [OF k1 un] that by simp
    have k2: "keeps installed (seq install_callbacks (install_host ev))"
      by (simp add: install_callbacks_def keeps_seq keeps_ret keeps_register_callback
            keeps_installed_install_host)
    have i2: "installed (fst (seq install_callbacks (install_host ev) st1))"
      using keepsD [OF k2, of st1] i1 by simp
    show ?thesis
      using that un i1 i2
      by (cases r; cases "seq install_callbacks (install_host ev) st1")
         (auto simp: install_def action_defs split: prod.splits sum.splits)
  qed
  then show ?thesis
    by (simp add: preserves_def)
qed

lemma installed_after_call:
  "currentServer st = None \<or> installed st \<Longrightarrow>
   currentServer (run_call c ev st) = None \<or> installed (run_call c ev st)"
proof (cases c)
  case Install
  assume inv: "currentServer st = None \<or> installed st"
  have ki: "keeps currentServer (install ev)"
    by (rule keeps_install; simp)
  show ?thesis
    using Install inv
      preservesD [OF keeps_installed_preserves [OF ki preserves_installed_install]]
    by simp
next
  case Uninstall
  assume "currentServer st = None \<or> installed st"
  moreover have "keeps currentServer uninstall" "keeps installed uninstall"
    by (rule keeps_uninstall; simp)+
  ultimately show ?thesis
    using Uninstall by (simp add: keeps_def)
next
  case (Show ta ma)
  assume inv: "currentServer st = None \<or> installed st"
  obtain m where m: "requested_modal ma st = (st, Inr m)"
    using requested_modal_pure by blast
  obtain st1 r where ai: "auto_install ev st = (st1, r)"
    by (cases "auto_install ev st")
  show ?thesis
  proof (cases r)
    case (Inl e)
    have "currentServer st1 = currentServer st"
      using keepsD2 [OF keeps_registry_auto_install(1) ai] .
    moreover have "installed st \<Longrightarrow> installed st1"
      using ai by (simp add: auto_install_unfold)
    ultimately show ?thesis
      using Show Inl ai inv show_qml_unfold [OF m, of ta ev] by auto
  next
    case (Inr u)
    have "installed st1"
      using ai Inr install_fresh(2) [of st ev]
      by (cases "installed st") (auto simp: auto_install_unfold)
    then have "installed (fst (show_body ta m ev st1))"
      using keepsD [OF keeps_installed_show_body, of ta m ev st1] by simp
    then show ?thesis
      using Show Inr ai show_qml_unfold [OF m, of ta ev] by simp
  qed
next
  case Publish
  assume inv: "currentServer st = None \<or> installed st"
  have "keeps installed (publish ev)"
    by (auto simp: publish_def pop_currentServer_def keeps_publish_delegate
          intro!: keeps_bind keeps_gets keeps_ret keeps_try_except keeps_lookup keeps_modify
          split: option.split)
  moreover have "currentServer st = None \<Longrightarrow> currentServer (fst (publish ev st)) = None"
    by (simp add: publish_validate_none)
  ultimately show ?thesis
    using Publish inv by (auto simp: keeps_def)
next
  case Validate
  assume inv: "currentServer st = None \<or> installed st"
  have "keeps installed (validate ev)"
    by (auto simp: validate_def pop_currentServer_def keeps_validate_delegate
          intro!: keeps_bind keeps_gets keeps_ret keeps_try_except keeps_lookup keeps_modify
          split: option.split)
  moreover have "currentServer st = None \<Longrightarrow> currentServer (fst (validate ev st)) = None"
    by (simp add: publish_validate_none)
  ultimately show ?thesis
    using Validate inv by (auto simp: keeps_def)
qed

lemma registered_server_installed:
  "currentServer st = None \<or> installed st \<Longrightarrow>
   currentServer (run_calls cs st) = None \<or> installed (run_calls cs st)"
proof (induction cs arbitrary: st)
  case Nil
  then show ?case by simp
next
  case (Cons c cs)
  obtain k ev where c: "c = (k, ev)"
    by (cases c)
  from Cons.prems have "currentServer (run_call k ev st) = None \<or> installed (run_call k ev st)"
    by (rule installed_after_call)
  then show ?case
    using Cons.IH c by simp
qed

lemma reachable_server_installed:
  "currentServer (run_calls cs initial_state) = None \<or> installed (run_calls cs initial_state)"
  by (rule registered_server_installed) (simp add: initial_state_def)

subsection \<open>A failing construction after a stale-session recovery\<close>

text \<open>C4 as stated fails in its last clause. After a \<^verbatim>\<open>show()\<close> at process start and a
  \<^verbatim>\<open>publish()\<close> once the subprocess has gone, no server is registered but the proxy of
  server 0 still is. A \<^verbatim>\<open>show()\<close> whose construction fails then returns without
  raising and registers nothing, and the registry holds that proxy after the call as it
  did before.\<close>

theorem show_construction_failure_counterexample:
  "currentServer
     (run_calls [(Show [] None, plain_env), (Publish, vanished_env)] initial_state) = None \<and>
   construction_failure headless_spawn_failure_env = Some OSError \<and>
   snd (show_qml [] None headless_spawn_failure_env
          (run_calls [(Show [] None, plain_env), (Publish, vanished_env)] initial_state)) =
     Inr None \<and>
   currentProxy (fst (show_qml [] None headless_spawn_failure_env
          (run_calls [(Show [] None, plain_env), (Publish, vanished_env)] initial_state))) =
     Some (Proxy 0 True)"
proof -
  let ?s = "running_state\<lparr>trace := trace running_state @ [ProxyUpdate (Proxy 0 True) 0],
                           currentServer := None\<rparr>"
  have s: "run_calls [(Show [] None, plain_env), (Publish, vanished_env)] initial_state = ?s"
    by (simp add: running_state_def [symmetric] publish_vanished)
  have cf: "construction_failure headless_spawn_failure_env = Some OSError"
    by (simp add: construction_failure_def headless_spawn_failure_env_def plain_env_def)
  have hl: "is_headless headless_spawn_failure_env"
    by (simp add: is_headless_def headless_spawn_failure_env_def plain_env_def)
  have m: "requested_modal None ?s = (?s, Inr False)"
    by (simp add: requested_modal_def action_defs running_state_fields)
  have ai: "auto_install headless_spawn_failure_env ?s = (?s, Inr ())"
    by (simp add: auto_install_unfold running_state_fields)
  have "show_qml [] None headless_spawn_failure_env ?s =
          show_body [] False headless_spawn_failure_env ?s"
    using show_qml_unfold [OF m, of "[]" headless_spawn_failure_env] ai by simp
  also have "\<dots> = show_new [] False headless_spawn_failure_env ?s"
    by (simp add: show_body_def action_defs)
  finally have run: "show_qml [] None headless_spawn_failure_env ?s =
          show_new [] False headless_spawn_failure_env ?s" .
  show ?thesis
    unfolding s run show_new_construction_fails_headless [OF cf hl]
    using cf by (simp add: running_state_fields)
qed

end
